theory Spec2Isabelle
  imports Complex_Main
begin

section \<open>Strings\<close>

text \<open>
  JavaScript strings are modelled as \<^typ>\<open>string\<close>, read as sequences of code units
  below 256 (Latin-1). On these, \<open>String.prototype.toLowerCase\<close> maps \<open>A\<close>--\<open>Z\<close> and
  the accented capitals \<open>0xC0\<close>--\<open>0xDE\<close> (without the multiplication sign \<open>0xD7\<close>) to the
  letter 32 places further, and \<open>String.prototype.trim\<close> removes TAB, LF, VT, FF, CR,
  SPACE and NBSP from both ends. The empty string is the only falsy string, so the
  guard \<open>!field\<close> on a string field is \<open>field = []\<close>.
\<close>

definition toLowerChar :: "char \<Rightarrow> char" where
  "toLowerChar c =
     (let n = (of_char c :: nat)
      in if (65 \<le> n \<and> n \<le> 90) \<or> (192 \<le> n \<and> n \<le> 222 \<and> n \<noteq> 215)
         then char_of (n + 32) else c)"

definition toLowerCase :: "string \<Rightarrow> string" where
  "toLowerCase s = map toLowerChar s"

definition isWhiteSpace :: "char \<Rightarrow> bool" where
  "isWhiteSpace c =
     (let n = (of_char c :: nat) in (9 \<le> n \<and> n \<le> 13) \<or> n = 32 \<or> n = 160)"

definition trim :: "string \<Rightarrow> string" where
  "trim s = rev (dropWhile isWhiteSpace (rev (dropWhile isWhiteSpace s)))"

definition startsWith :: "string \<Rightarrow> string \<Rightarrow> bool" where
  "startsWith s p = (take (length p) s = p)"

definition substring :: "string \<Rightarrow> nat \<Rightarrow> string" where
  "substring s n = drop n s"

section \<open>Errors and the store\<close>

text \<open>
  Every early \<open>return res.status(...).json({ error: ... })\<close> of a handler is a value of
  \<open>error\<close>. The handlers answer a missing field with status 400 and a message asking
  for the field (\<open>ValidationError\<close>), a taken username with status 400 and the
  message that the username exists (\<open>Conflict\<close>), a verification record that is not
  found with status 400 and one fixed message per handler (\<open>NotFoundOrExpired\<close>), and
  a missing test with status 404 (\<open>NotFound\<close>). An exception thrown while a handler
  runs (a property read on \<open>undefined\<close>) is \<open>TypeError\<close>.
\<close>

datatype error = ValidationError | Conflict | NotFoundOrExpired | NotFound | TypeError

text \<open>
  A record of \<open>verifications.json\<close>. The two dates are stored as ISO strings and
  compared after \<open>new Date(...)\<close>; they are modelled as the millisecond time stamps
  these strings denote.
\<close>

record verification =
  v_id :: string
  v_userId :: string
  v_telegram :: string
  v_name :: string
  v_phone :: string
  v_code :: string
  v_status :: string
  v_createdAt :: int
  v_expiresAt :: int

text \<open>A record of \<open>users.json\<close>.\<close>

record user =
  u_id :: string
  u_username :: string
  u_password :: string
  u_name :: string
  u_phone :: string
  u_role :: string
  u_telegram :: string
  u_createdAt :: int

section \<open>POST /api/auth/send-code\<close>

text \<open>
  The values the handler draws from its environment are arguments of the model: the
  two identifiers returned by \<open>uuidv4()\<close>, the clock \<open>Date.now()\<close> and the
  verification code.
\<close>

record send_code_body =
  sc_telegram :: string
  sc_name :: string
  sc_phone :: string

record send_code_response =
  scr_message :: string
  scr_userId :: string

definition cleanTelegram :: "string \<Rightarrow> string" where
  "cleanTelegram telegram =
     (if startsWith telegram ''@'' then substring telegram 1 else telegram)"

definition expire_existing :: "string \<Rightarrow> verification \<Rightarrow> verification" where
  "expire_existing ct v =
     (if toLowerCase (v_telegram v) = toLowerCase ct \<and> v_status v = ''pending''
      then v\<lparr>v_status := ''expired''\<rparr> else v)"

definition send_code_message :: string where
  "send_code_message =
     ''Tasdiqlash kodini olish uchun Telegram botga o'ting va /start buyrug'ini bosing''"

definition send_code ::
  "string \<Rightarrow> string \<Rightarrow> string \<Rightarrow> int \<Rightarrow> send_code_body \<Rightarrow> verification list
     \<Rightarrow> error + (send_code_response \<times> verification list)" where
  "send_code code userId vid now body verifications =
     (if sc_telegram body = [] then Inl ValidationError
      else if sc_name body = [] then Inl ValidationError
      else if sc_phone body = [] then Inl ValidationError
      else
        let ct = cleanTelegram (sc_telegram body);
            expired = map (expire_existing ct) verifications;
            pushed = expired @
              [\<lparr>v_id = vid, v_userId = userId, v_telegram = ct, v_name = sc_name body,
                v_phone = sc_phone body, v_code = code, v_status = ''pending'',
                v_createdAt = now, v_expiresAt = now + 30 * 60 * 1000\<rparr>]
        in Inr (\<lparr>scr_message = send_code_message, scr_userId = userId\<rparr>, pushed))"

text \<open>
  A request is active for a handle at a time when its handle equals the handle up to
  letter case, its status is \<open>pending\<close> or \<open>step1-verified\<close> and it has not expired;
  the handlers read a request as unexpired when \<open>new Date(v.expiresAt) > new Date()\<close>.
\<close>

definition unexpired :: "int \<Rightarrow> verification \<Rightarrow> bool" where
  "unexpired now v = (v_expiresAt v > now)"

definition same_handle :: "string \<Rightarrow> verification \<Rightarrow> bool" where
  "same_handle ct v = (toLowerCase (v_telegram v) = toLowerCase ct)"

definition active_for :: "string \<Rightarrow> int \<Rightarrow> verification \<Rightarrow> bool" where
  "active_for ct now v =
     (same_handle ct v \<and> (v_status v = ''pending'' \<or> v_status v = ''step1-verified'')
      \<and> unexpired now v)"

definition pending_for :: "string \<Rightarrow> verification \<Rightarrow> bool" where
  "pending_for ct v = (same_handle ct v \<and> v_status v = ''pending'')"

section \<open>POST /api/auth/verify-code-step1\<close>

text \<open>
  \<open>verifications.find(p)\<close> returns the first record that satisfies \<open>p\<close>, and the
  handler then assigns to a field of that record, which changes the record inside the
  array that is written back. \<open>update_found\<close> is this search followed by the
  assignment: \<open>None\<close> when \<open>find\<close> returns \<open>undefined\<close>.
\<close>

fun update_found :: "('a \<Rightarrow> bool) \<Rightarrow> ('a \<Rightarrow> 'a) \<Rightarrow> 'a list \<Rightarrow> 'a list option" where
  "update_found p f [] = None"
| "update_found p f (x # xs) =
     (if p x then Some (f x # xs) else map_option ((#) x) (update_found p f xs))"

record step1_body =
  s1_telegram :: string
  s1_code :: string
  s1_userId :: string

definition step1_match :: "step1_body \<Rightarrow> int \<Rightarrow> verification \<Rightarrow> bool" where
  "step1_match body now v =
     (v_telegram v = s1_telegram body \<and> v_code v = s1_code body \<and>
      v_status v = ''pending'' \<and> v_userId v = s1_userId body \<and> v_expiresAt v > now)"

definition verify_code_step1 ::
  "int \<Rightarrow> step1_body \<Rightarrow> verification list \<Rightarrow> error + verification list" where
  "verify_code_step1 now body verifications =
     (if s1_telegram body = [] \<or> s1_code body = [] \<or> s1_userId body = []
      then Inl ValidationError
      else
        (case update_found (step1_match body now)
                (\<lambda>v. v\<lparr>v_status := ''step1-verified''\<rparr>) verifications of
           None \<Rightarrow> Inl NotFoundOrExpired
         | Some written \<Rightarrow> Inr written))"

section \<open>POST /api/auth/complete-registration\<close>

text \<open>
  The string returned by \<open>bcrypt.hashSync(password, 10)\<close> (which draws a salt) and the
  token returned by \<open>jwt.sign(...)\<close> are arguments of the model, as is the clock.
  The two collections the handler reads and writes are the fields of \<open>store\<close>.
\<close>

record registration_body =
  cr_userId :: string
  cr_username :: string
  cr_password :: string
  cr_name :: string
  cr_phone :: string
  cr_telegram :: string

record store =
  users :: "user list"
  verifications :: "verification list"

record registration_response =
  rg_token :: string
  rg_id :: string
  rg_username :: string
  rg_name :: string
  rg_role :: string

definition registration_match :: "string \<Rightarrow> int \<Rightarrow> verification \<Rightarrow> bool" where
  "registration_match userId now v =
     (v_userId v = userId \<and> v_status v = ''step1-verified'' \<and> v_expiresAt v > now)"

definition fields_present :: "registration_body \<Rightarrow> bool" where
  "fields_present body =
     (cr_userId body \<noteq> [] \<and> cr_username body \<noteq> [] \<and> cr_password body \<noteq> [] \<and>
      cr_name body \<noteq> [] \<and> cr_phone body \<noteq> [] \<and> cr_telegram body \<noteq> [])"

definition username_taken :: "string \<Rightarrow> user list \<Rightarrow> bool" where
  "username_taken username us = list_ex (\<lambda>u. u_username u = username) us"

definition complete_registration ::
  "string \<Rightarrow> string \<Rightarrow> int \<Rightarrow> registration_body \<Rightarrow> store
     \<Rightarrow> error + (registration_response \<times> store)" where
  "complete_registration hashedPassword token now body s =
     (if \<not> fields_present body then Inl ValidationError
      else if username_taken (cr_username body) (users s) then Inl Conflict
      else
        (case update_found (registration_match (cr_userId body) now)
                (\<lambda>v. v\<lparr>v_status := ''completed''\<rparr>) (verifications s) of
           None \<Rightarrow> Inl NotFoundOrExpired
         | Some written \<Rightarrow>
             let newUser =
                   \<lparr>u_id = cr_userId body, u_username = cr_username body,
                    u_password = hashedPassword, u_name = cr_name body,
                    u_phone = cr_phone body, u_role = ''student'',
                    u_telegram = cr_telegram body, u_createdAt = now\<rparr>
             in Inr (\<lparr>rg_token = token, rg_id = u_id newUser,
                      rg_username = u_username newUser, rg_name = u_name newUser,
                      rg_role = u_role newUser\<rparr>,
                     \<lparr>users = users s @ [newUser], verifications = written\<rparr>)))"

section \<open>Doubles\<close>

text \<open>
  The numbers of the handlers are IEEE doubles. A double is modelled as the real it
  denotes, and each arithmetic operation returns the exact result rounded to the
  nearest double, ties to the even significand. \<open>binade x\<close> is the exponent \<open>e\<close> with
  \<open>2^e \<le> |x| < 2^(e+1)\<close>, and the doubles of that binade are the multiples of
  \<open>ulp x = 2^(e-52)\<close>. Overflow and the coarser grid of the subnormal numbers are left
  out: the handlers compute with counts, their quotients and numbers below \<open>2^20\<close>.
\<close>

definition round_ties_even :: "real \<Rightarrow> int" where
  "round_ties_even y =
     (let f = \<lfloor>y\<rfloor>
      in if y - of_int f < 1 / 2 then f
         else if 1 / 2 < y - of_int f then f + 1
         else if even f then f else f + 1)"

definition binade :: "real \<Rightarrow> int" where
  "binade x = \<lfloor>log 2 \<bar>x\<bar>\<rfloor>"

definition ulp :: "real \<Rightarrow> real" where
  "ulp x = 2 powr (of_int (binade x) - 52)"

definition round_double :: "real \<Rightarrow> real" where
  "round_double x = (if x = 0 then 0 else of_int (round_ties_even (x / ulp x)) * ulp x)"

definition is_double :: "real \<Rightarrow> bool" where
  "is_double x = (round_double x = x)"

section \<open>POST /api/results\<close>

text \<open>
  A test of \<open>tests.json\<close> and the answers of a submission, with the fields the handler
  reads. A question has an id and a type; its \<open>options\<close> and its \<open>correctAnswer\<close> are
  optional, and so are the \<open>optionId\<close>, the \<open>selectedOptions\<close> and the \<open>text\<close> of an
  answer. \<open>None\<close> stands for a field that is absent or holds a value of another
  JavaScript type than the one named here (string, array of strings): the handler
  takes the same branch in both cases.
\<close>

record choice =
  o_id :: string
  o_text :: string
  o_correct :: bool

record question =
  q_id :: string
  q_type :: string
  q_options :: "choice list option"
  q_correctAnswer :: "string option"

record test =
  t_id :: string
  t_questions :: "question list"

record answer =
  a_questionId :: string
  a_optionId :: "string option"
  a_selectedOptions :: "string list option"
  a_text :: "string option"

text \<open>The graded answer \<open>{ ...answer, correct }\<close>.\<close>

record graded_answer =
  g_answer :: answer
  g_correct :: bool

text \<open>
  The value of \<open>(correctCount / test.questions.length) * 100\<close>. The two counts are
  integers below \<open>2^53\<close>, which are doubles. Their quotient is rounded to a double; it
  is \<open>Infinity\<close> when only the divisor is zero and \<open>NaN\<close> when both are. The product
  with 100 is rounded again.
\<close>

datatype jsnum = Num real | Infinity | NaN

definition js_div :: "nat \<Rightarrow> nat \<Rightarrow> jsnum" where
  "js_div c n =
     (if n = 0 then (if c = 0 then NaN else Infinity)
      else Num (round_double (real c / real n)))"

fun js_times :: "jsnum \<Rightarrow> real \<Rightarrow> jsnum" where
  "js_times (Num x) k = Num (round_double (x * k))"
| "js_times Infinity k = Infinity"
| "js_times NaN k = NaN"

text \<open>
  The branch of the callback that runs once the question is found. Reading \<open>.id\<close> of
  the \<open>undefined\<close> that \<open>options.find\<close> returns, calling \<open>.find\<close> or \<open>.filter\<close> on
  missing options, and calling \<open>.trim()\<close> on a missing text or \<open>correctAnswer\<close> throw.
\<close>

definition grade_question :: "question \<Rightarrow> answer \<Rightarrow> error + bool" where
  "grade_question question answer =
     (if q_type question = ''multiple-choice'' then
        (case q_options question of
           None \<Rightarrow> Inl TypeError
         | Some options \<Rightarrow>
             (case find o_correct options of
                None \<Rightarrow> Inl TypeError
              | Some correctOption \<Rightarrow> Inr (a_optionId answer = Some (o_id correctOption))))
      else if q_type question = ''multiple-answer'' then
        (case a_selectedOptions answer of
           None \<Rightarrow> Inr False
         | Some selectedOptions \<Rightarrow>
             (case q_options question of
                None \<Rightarrow> Inl TypeError
              | Some options \<Rightarrow>
                  let correctOptions = map o_id (filter o_correct options);
                      incorrectOptions = map o_id (filter (\<lambda>c. \<not> o_correct c) options);
                      allCorrectSelected =
                        list_all (\<lambda>i. i \<in> set selectedOptions) correctOptions;
                      noIncorrectSelected =
                        (\<not> list_ex (\<lambda>i. i \<in> set incorrectOptions) selectedOptions)
                  in Inr (allCorrectSelected \<and> noIncorrectSelected)))
      else if q_type question = ''text'' then
        (case a_text answer of
           None \<Rightarrow> Inl TypeError
         | Some text \<Rightarrow>
             (case q_correctAnswer question of
                None \<Rightarrow> Inl TypeError
              | Some correctAnswer \<Rightarrow>
                  Inr (toLowerCase (trim text) = toLowerCase (trim correctAnswer))))
      else Inr False)"

text \<open>The callback of \<open>answers.map\<close>, without the counter.\<close>

definition grade_answer :: "test \<Rightarrow> answer \<Rightarrow> error + graded_answer" where
  "grade_answer test answer =
     (case find (\<lambda>q. q_id q = a_questionId answer) (t_questions test) of
        None \<Rightarrow> Inr \<lparr>g_answer = answer, g_correct = False\<rparr>
      | Some question \<Rightarrow>
          (case grade_question question answer of
             Inl e \<Rightarrow> Inl e
           | Inr correct \<Rightarrow> Inr \<lparr>g_answer = answer, g_correct = correct\<rparr>))"

text \<open>
  \<open>answers.map\<close> with the counter \<open>correctCount\<close> that the callback increments: the
  answers are graded in order, and an exception of the callback ends the loop.
\<close>

fun gradedAnswers :: "test \<Rightarrow> answer list \<Rightarrow> nat \<Rightarrow> error + (graded_answer list \<times> nat)" where
  "gradedAnswers test [] correctCount = Inr ([], correctCount)"
| "gradedAnswers test (answer # answers) correctCount =
     (case grade_answer test answer of
        Inl e \<Rightarrow> Inl e
      | Inr g \<Rightarrow>
          (case gradedAnswers test answers
                  (if g_correct g then correctCount + 1 else correctCount) of
             Inl e \<Rightarrow> Inl e
           | Inr (gs, c) \<Rightarrow> Inr (g # gs, c)))"

record result =
  r_id :: string
  r_testId :: string
  r_userId :: string
  r_answers :: "graded_answer list"
  r_score :: jsnum
  r_correctCount :: nat
  r_totalQuestions :: nat
  r_submittedAt :: int

text \<open>
  Lines 676--723 of the handler: the score calculation and the new result. The
  identifier from \<open>uuidv4()\<close> and the clock are arguments.
\<close>

definition Grade ::
  "string \<Rightarrow> int \<Rightarrow> string \<Rightarrow> string \<Rightarrow> test \<Rightarrow> answer list \<Rightarrow> error + result" where
  "Grade uuid now userId testId test answers =
     (case gradedAnswers test answers 0 of
        Inl e \<Rightarrow> Inl e
      | Inr (gs, correctCount) \<Rightarrow>
          Inr \<lparr>r_id = uuid, r_testId = testId, r_userId = userId, r_answers = gs,
               r_score = js_times (js_div correctCount (length (t_questions test))) 100,
               r_correctCount = correctCount,
               r_totalQuestions = length (t_questions test),
               r_submittedAt = now\<rparr>)"






text \<open>The ids of the options of a question that are flagged correct, and of the others.\<close>

definition correct_ids :: "choice list \<Rightarrow> string list" where
  "correct_ids options = map o_id (filter o_correct options)"

definition incorrect_ids :: "choice list \<Rightarrow> string list" where
  "incorrect_ids options = map o_id (filter (\<lambda>c. \<not> o_correct c) options)"

text \<open>
  What grading an answer against its question needs in order not to throw. The first
  predicate holds the two conditions on a multiple-choice and on a text question: some
  option is flagged correct; the text and the \<open>correctAnswer\<close> are strings. The second
  adds the condition on a multiple-answer question: when the answer carries an array
  of selected options, the question has options.
\<close>

definition stated_precondition :: "question \<Rightarrow> answer \<Rightarrow> bool" where
  "stated_precondition q a =
     (if q_type q = ''multiple-choice''
      then (case q_options q of None \<Rightarrow> False | Some options \<Rightarrow> list_ex o_correct options)
      else if q_type q = ''text''
      then a_text a \<noteq> None \<and> q_correctAnswer q \<noteq> None
      else True)"

definition gradable :: "question \<Rightarrow> answer \<Rightarrow> bool" where
  "gradable q a =
     (stated_precondition q a \<and>
      (if q_type q = ''multiple-answer'' \<and> a_selectedOptions a \<noteq> None
       then q_options q \<noteq> None else True))"

definition answer_gradable :: "test \<Rightarrow> answer \<Rightarrow> bool" where
  "answer_gradable test a =
     (case find (\<lambda>q. q_id q = a_questionId a) (t_questions test) of
        None \<Rightarrow> True
      | Some q \<Rightarrow> gradable q a)"

section \<open>The verification code\<close>

text \<open>
  \<open>Math.floor(100000 + Math.random() * 900000).toString()\<close>, with the product and the
  sum rounded to doubles. A product below \<open>2^-1022\<close> vanishes in the sum with 100000
  on the subnormal grid as on the one modelled. \<open>Math.random()\<close> returns a double \<open>r\<close>
  with \<open>0 \<le> r < 1\<close>, which is an argument of the model.
\<close>

definition random_draw :: "real \<Rightarrow> bool" where
  "random_draw r = (0 \<le> r \<and> r < 1 \<and> is_double r)"

text \<open>
  \<open>Number.prototype.toString\<close> of an integer below \<open>10^21\<close> is its decimal numeral.
\<close>

definition digit_char :: "nat \<Rightarrow> char" where
  "digit_char d = char_of (48 + d)"

function digits :: "nat \<Rightarrow> string" where
  "digits n = (if n < 10 then [digit_char n] else digits (n div 10) @ [digit_char (n mod 10)])"
  by pat_completeness auto
termination
  by (relation "measure id") auto

declare digits.simps [simp del]

definition Number_toString :: "int \<Rightarrow> string" where
  "Number_toString i = (if i < 0 then CHR ''-'' # digits (nat (- i)) else digits (nat i))"

definition isDigit :: "char \<Rightarrow> bool" where
  "isDigit c = (let n = (of_char c :: nat) in 48 \<le> n \<and> n \<le> 57)"

definition generate_code :: "real \<Rightarrow> string" where
  "generate_code r =
     Number_toString \<lfloor>round_double (100000 + round_double (r * 900000))\<rfloor>"

text \<open>The handler with the draw of the code: lines 226--286.\<close>

definition post_send_code ::
  "real \<Rightarrow> string \<Rightarrow> string \<Rightarrow> int \<Rightarrow> send_code_body \<Rightarrow> verification list
     \<Rightarrow> error + (send_code_response \<times> verification list)" where
  "post_send_code r userId vid now body vs =
     send_code (generate_code r) userId vid now body vs"

section \<open>Properties of the search\<close>

lemma update_found_None: "update_found p f xs = None \<longleftrightarrow> (\<forall>x\<in>set xs. \<not> p x)"
  by (induction xs) auto

lemma update_found_find: "(update_found p f xs = None) = (find p xs = None)"
  by (induction xs) auto

lemma update_found_Some:
  "update_found p f xs = Some ys \<Longrightarrow>
     \<exists>i<length xs. p (xs ! i) \<and> (\<forall>j<i. \<not> p (xs ! j)) \<and> ys = xs[i := f (xs ! i)]"
proof (induction xs arbitrary: ys)
  case Nil
  then show ?case by simp
next
  case (Cons x xs)
  show ?case
  proof (cases "p x")
    case True
    with Cons.prems have "ys = (x # xs)[0 := f ((x # xs) ! 0)]" by simp
    with True show ?thesis by force
  next
    case False
    with Cons.prems obtain zs where zs: "update_found p f xs = Some zs" "ys = x # zs"
      by auto
    from Cons.IH[OF zs(1)] obtain i where i: "i < length xs" "p (xs ! i)"
      "\<forall>j<i. \<not> p (xs ! j)" "zs = xs[i := f (xs ! i)]" by blast
    have "\<forall>j<Suc i. \<not> p ((x # xs) ! j)"
      using False i(3) by (auto simp: less_Suc_eq_0_disj)
    with i zs(2) show ?thesis
      by (intro exI[of _ "Suc i"]) simp
  qed
qed


section \<open>Issuing a code\<close>

lemma not_pending_expire: "\<not> pending_for ct (expire_existing ct v)"
  by (simp add: pending_for_def expire_existing_def same_handle_def)

lemma filter_pending_expire: "filter (pending_for ct) (map (expire_existing ct) vs) = []"
  by (induction vs) (simp_all add: not_pending_expire)


text \<open>
  C1 (as amended). A call of send-code with its three fields present succeeds and
  appends one request, which carries the fresh user id, the code and an expiry 30
  minutes after the clock. Afterwards the new request is the only one of its handle
  (compared without the leading \<open>@\<close> and up to letter case) with status \<open>pending\<close>:
  every earlier \<open>pending\<close> request of that handle is now \<open>expired\<close>, and every
  other earlier request is unchanged, whether it belongs to another handle or is a
  \<open>step1-verified\<close> request of the same handle.
\<close>

theorem send_code_expires_pending:
  assumes "sc_telegram body \<noteq> []" and "sc_name body \<noteq> []" and "sc_phone body \<noteq> []"
  shows "\<exists>resp vs'.
         send_code code userId vid now body vs = Inr (resp, vs') \<and>
         length vs' = Suc (length vs) \<and>
         v_userId (last vs') = userId \<and> v_code (last vs') = code \<and>
         v_expiresAt (last vs') = now + 1800000 \<and>
         filter (pending_for (cleanTelegram (sc_telegram body))) vs' = [last vs'] \<and>
         (\<forall>i<length vs.
            vs' ! i = (if pending_for (cleanTelegram (sc_telegram body)) (vs ! i)
                       then (vs ! i)\<lparr>v_status := ''expired''\<rparr> else vs ! i))"
proof -
  let ?ct = "cleanTelegram (sc_telegram body)"
  let ?new = "\<lparr>v_id = vid, v_userId = userId, v_telegram = ?ct, v_name = sc_name body,
                v_phone = sc_phone body, v_code = code, v_status = ''pending'',
                v_createdAt = now, v_expiresAt = now + 30 * 60 * 1000\<rparr>"
  let ?vs' = "map (expire_existing ?ct) vs @ [?new]"
  have run: "send_code code userId vid now body vs =
      Inr (\<lparr>scr_message = send_code_message, scr_userId = userId\<rparr>, ?vs')"
    using assms by (simp add: send_code_def Let_def)
  have new: "pending_for ?ct ?new" by (simp add: pending_for_def same_handle_def)
  have old: "\<forall>i<length vs. ?vs' ! i = (if pending_for ?ct (vs ! i)
                       then (vs ! i)\<lparr>v_status := ''expired''\<rparr> else vs ! i)"
    by (simp add: nth_append expire_existing_def pending_for_def same_handle_def)
  have one: "filter (pending_for ?ct) ?vs' = [last ?vs']"
    using new by (simp add: filter_pending_expire)
  show ?thesis
    apply (rule exI[of _ "\<lparr>scr_message = send_code_message, scr_userId = userId\<rparr>"])
    apply (rule exI[of _ ?vs'])
    using run old one by simp
qed

theorem send_code_expires_pending_witness:
  "sc_telegram \<lparr>sc_telegram = ''@Alice'', sc_name = ''Alice'', sc_phone = ''+998''\<rparr> \<noteq> [] \<and>
   (\<exists>resp vs'.
      send_code ''123456'' ''U2'' ''V3'' 1000
        \<lparr>sc_telegram = ''@Alice'', sc_name = ''Alice'', sc_phone = ''+998''\<rparr>
        [\<lparr>v_id = ''V1'', v_userId = ''U1'', v_telegram = ''alice'', v_name = ''Alice'',
          v_phone = ''+998'', v_code = ''654321'', v_status = ''pending'',
          v_createdAt = 0, v_expiresAt = 1800000\<rparr>,
         \<lparr>v_id = ''V2'', v_userId = ''U0'', v_telegram = ''bob'', v_name = ''Bob'',
          v_phone = ''+997'', v_code = ''111111'', v_status = ''pending'',
          v_createdAt = 0, v_expiresAt = 1800000\<rparr>] = Inr (resp, vs') \<and>
      length vs' = 3 \<and>
      v_status (vs' ! 0) = ''expired'' \<and>
      vs' ! 1 = \<lparr>v_id = ''V2'', v_userId = ''U0'', v_telegram = ''bob'', v_name = ''Bob'',
          v_phone = ''+997'', v_code = ''111111'', v_status = ''pending'',
          v_createdAt = 0, v_expiresAt = 1800000\<rparr> \<and>
      filter (pending_for ''Alice'') vs' = [last vs'])"
proof -
  let ?body = "\<lparr>sc_telegram = ''@Alice'', sc_name = ''Alice'', sc_phone = ''+998''\<rparr>"
  let ?v1 = "\<lparr>v_id = ''V1'', v_userId = ''U1'', v_telegram = ''alice'', v_name = ''Alice'',
          v_phone = ''+998'', v_code = ''654321'', v_status = ''pending'',
          v_createdAt = 0, v_expiresAt = 1800000\<rparr>"
  let ?v2 = "\<lparr>v_id = ''V2'', v_userId = ''U0'', v_telegram = ''bob'', v_name = ''Bob'',
          v_phone = ''+997'', v_code = ''111111'', v_status = ''pending'',
          v_createdAt = 0, v_expiresAt = 1800000\<rparr>"
  have ct: "cleanTelegram (sc_telegram ?body) = ''Alice''"
    by (simp add: cleanTelegram_def startsWith_def substring_def)
  have p1: "pending_for ''Alice'' ?v1" by code_simp
  have p2: "\<not> pending_for ''Alice'' ?v2" by code_simp
  have h1: "sc_telegram ?body \<noteq> []" and h2: "sc_name ?body \<noteq> []"
    and h3: "sc_phone ?body \<noteq> []" by simp_all
  from send_code_expires_pending[OF h1 h2 h3, of "''123456''" "''U2''" "''V3''" 1000 "[?v1, ?v2]"]
  obtain resp vs' where r:
    "send_code ''123456'' ''U2'' ''V3'' 1000 ?body [?v1, ?v2] = Inr (resp, vs')"
    "length vs' = Suc (length [?v1, ?v2])"
    "filter (pending_for (cleanTelegram (sc_telegram ?body))) vs' = [last vs']"
    "\<forall>i<length [?v1, ?v2].
        vs' ! i = (if pending_for (cleanTelegram (sc_telegram ?body)) ([?v1, ?v2] ! i)
                   then ([?v1, ?v2] ! i)\<lparr>v_status := ''expired''\<rparr> else [?v1, ?v2] ! i)"
    by blast
  have l0: "0 < length [?v1, ?v2]" and l1: "1 < length [?v1, ?v2]" by simp_all
  from r(4)[rule_format, OF l0]
  have "vs' ! 0 = (if pending_for ''Alice'' ?v1 then ?v1\<lparr>v_status := ''expired''\<rparr> else ?v1)"
    unfolding ct by simp
  then have a0: "v_status (vs' ! 0) = ''expired''" using p1 by simp
  from r(4)[rule_format, OF l1]
  have "vs' ! 1 = (if pending_for ''Alice'' ?v2 then ?v2\<lparr>v_status := ''expired''\<rparr> else ?v2)"
    unfolding ct by simp
  then have a1: "vs' ! 1 = ?v2" using p2 by simp
  have len: "length vs' = 3" using r(2) by simp
  have f: "filter (pending_for ''Alice'') vs' = [last vs']" using r(3) unfolding ct .
  from r(1) len a0 a1 f h1 show ?thesis by blast
qed

text \<open>
  C1 as stated fails: the handler expires \<open>pending\<close> requests only. With an unexpired
  \<open>step1-verified\<close> request of \<open>alice\<close> in the collection, issuing a code for
  \<open>@alice\<close> leaves it as it is, and two requests of that handle are active.
\<close>

theorem send_code_step1_verified_counterexample:
  "send_code ''123456'' ''U2'' ''V2'' 1000
     \<lparr>sc_telegram = ''@alice'', sc_name = ''Alice'', sc_phone = ''+998''\<rparr>
     [\<lparr>v_id = ''V1'', v_userId = ''U1'', v_telegram = ''alice'', v_name = ''Alice'',
       v_phone = ''+998'', v_code = ''654321'', v_status = ''step1-verified'',
       v_createdAt = 0, v_expiresAt = 1800000\<rparr>]
   = Inr (\<lparr>scr_message = send_code_message, scr_userId = ''U2''\<rparr>,
     [\<lparr>v_id = ''V1'', v_userId = ''U1'', v_telegram = ''alice'', v_name = ''Alice'',
       v_phone = ''+998'', v_code = ''654321'', v_status = ''step1-verified'',
       v_createdAt = 0, v_expiresAt = 1800000\<rparr>,
      \<lparr>v_id = ''V2'', v_userId = ''U2'', v_telegram = ''alice'', v_name = ''Alice'',
       v_phone = ''+998'', v_code = ''123456'', v_status = ''pending'',
       v_createdAt = 1000, v_expiresAt = 1801000\<rparr>]) \<and>
   length (filter (active_for ''alice'' 1000)
     [\<lparr>v_id = ''V1'', v_userId = ''U1'', v_telegram = ''alice'', v_name = ''Alice'',
       v_phone = ''+998'', v_code = ''654321'', v_status = ''step1-verified'',
       v_createdAt = 0, v_expiresAt = 1800000\<rparr>,
      \<lparr>v_id = ''V2'', v_userId = ''U2'', v_telegram = ''alice'', v_name = ''Alice'',
       v_phone = ''+998'', v_code = ''123456'', v_status = ''pending'',
       v_createdAt = 1000, v_expiresAt = 1801000\<rparr>]) = 2"
  by (simp add: send_code_def cleanTelegram_def startsWith_def substring_def
      expire_existing_def active_for_def same_handle_def unexpired_def)


section \<open>Confirming the code\<close>

text \<open>
  C2 (as amended). With the three fields of the request present, verify-code-step1
  succeeds if and only if some request has status \<open>pending\<close>, the submitted code, the
  submitted user id, the submitted handle (compared as it is stored) and an expiry
  strictly later than the clock. It then sets the first such request to
  \<open>step1-verified\<close> and leaves the others unchanged. In every other case it answers
  with the one error \<open>NotFoundOrExpired\<close>, whichever field failed to match.
\<close>

theorem verify_code_step1_iff:
  assumes "s1_telegram body \<noteq> []" and "s1_code body \<noteq> []" and "s1_userId body \<noteq> []"
  shows "if \<exists>v\<in>set vs. v_status v = ''pending'' \<and> v_code v = s1_code body \<and>
              v_userId v = s1_userId body \<and> v_telegram v = s1_telegram body \<and>
              now < v_expiresAt v
         then \<exists>i<length vs.
                step1_match body now (vs ! i) \<and> (\<forall>j<i. \<not> step1_match body now (vs ! j)) \<and>
                verify_code_step1 now body vs =
                  Inr (vs[i := (vs ! i)\<lparr>v_status := ''step1-verified''\<rparr>])
         else verify_code_step1 now body vs = Inl NotFoundOrExpired"
proof (cases "update_found (step1_match body now)
                (\<lambda>v. v\<lparr>v_status := ''step1-verified''\<rparr>) vs")
  case None
  then have "\<forall>v\<in>set vs. \<not> step1_match body now v"
    by (simp add: update_found_None)
  then have "\<not> (\<exists>v\<in>set vs. v_status v = ''pending'' \<and> v_code v = s1_code body \<and>
              v_userId v = s1_userId body \<and> v_telegram v = s1_telegram body \<and>
              now < v_expiresAt v)"
    by (auto simp: step1_match_def)
  moreover have "verify_code_step1 now body vs = Inl NotFoundOrExpired"
    using assms None by (simp add: verify_code_step1_def)
  ultimately show ?thesis by simp
next
  case (Some ys)
  from update_found_Some[OF Some] obtain i where i: "i < length vs"
    "step1_match body now (vs ! i)" "\<forall>j<i. \<not> step1_match body now (vs ! j)"
    "ys = vs[i := (vs ! i)\<lparr>v_status := ''step1-verified''\<rparr>]" by blast
  have "vs ! i \<in> set vs" using i(1) by simp
  with i(2) have ex: "\<exists>v\<in>set vs. v_status v = ''pending'' \<and> v_code v = s1_code body \<and>
              v_userId v = s1_userId body \<and> v_telegram v = s1_telegram body \<and>
              now < v_expiresAt v"
    unfolding step1_match_def by blast
  have "verify_code_step1 now body vs = Inr ys"
    using assms Some by (simp add: verify_code_step1_def)
  with i ex show ?thesis by auto
qed

theorem verify_code_step1_iff_witness:
  "s1_telegram \<lparr>s1_telegram = ''alice'', s1_code = ''123456'', s1_userId = ''U1''\<rparr> \<noteq> [] \<and>
   verify_code_step1 1000 \<lparr>s1_telegram = ''alice'', s1_code = ''123456'', s1_userId = ''U1''\<rparr>
     [\<lparr>v_id = ''V1'', v_userId = ''U1'', v_telegram = ''alice'', v_name = ''Alice'',
       v_phone = ''+998'', v_code = ''123456'', v_status = ''pending'',
       v_createdAt = 0, v_expiresAt = 1800000\<rparr>]
   = Inr [\<lparr>v_id = ''V1'', v_userId = ''U1'', v_telegram = ''alice'', v_name = ''Alice'',
       v_phone = ''+998'', v_code = ''123456'', v_status = ''step1-verified'',
       v_createdAt = 0, v_expiresAt = 1800000\<rparr>] \<and>
   verify_code_step1 1000 \<lparr>s1_telegram = ''alice'', s1_code = ''000000'', s1_userId = ''U1''\<rparr>
     [\<lparr>v_id = ''V1'', v_userId = ''U1'', v_telegram = ''alice'', v_name = ''Alice'',
       v_phone = ''+998'', v_code = ''123456'', v_status = ''pending'',
       v_createdAt = 0, v_expiresAt = 1800000\<rparr>]
   = Inl NotFoundOrExpired"
proof -
  let ?good = "\<lparr>s1_telegram = ''alice'', s1_code = ''123456'', s1_userId = ''U1''\<rparr>"
  let ?bad = "\<lparr>s1_telegram = ''alice'', s1_code = ''000000'', s1_userId = ''U1''\<rparr>"
  let ?v = "\<lparr>v_id = ''V1'', v_userId = ''U1'', v_telegram = ''alice'', v_name = ''Alice'',
       v_phone = ''+998'', v_code = ''123456'', v_status = ''pending'',
       v_createdAt = 0, v_expiresAt = 1800000\<rparr>"
  have g: "s1_telegram ?good \<noteq> []" "s1_code ?good \<noteq> []" "s1_userId ?good \<noteq> []"
    by simp_all
  have b: "s1_telegram ?bad \<noteq> []" "s1_code ?bad \<noteq> []" "s1_userId ?bad \<noteq> []"
    by simp_all
  have "\<exists>i<length [?v]. step1_match ?good 1000 ([?v] ! i) \<and>
          (\<forall>j<i. \<not> step1_match ?good 1000 ([?v] ! j)) \<and>
          verify_code_step1 1000 ?good [?v] =
            Inr ([?v][i := ([?v] ! i)\<lparr>v_status := ''step1-verified''\<rparr>])"
    using verify_code_step1_iff[OF g, of "[?v]" 1000] by simp
  then have ok: "verify_code_step1 1000 ?good [?v] = Inr [?v\<lparr>v_status := ''step1-verified''\<rparr>]"
    by auto
  have no: "verify_code_step1 1000 ?bad [?v] = Inl NotFoundOrExpired"
    using verify_code_step1_iff[OF b, of "[?v]" 1000] by simp
  from g(1) ok no show ?thesis by simp
qed


text \<open>
  C2 as stated fails at the boundary: the handler reads a request as unexpired when
  \<open>new Date(v.expiresAt) > new Date()\<close>, so a request whose expiry equals the clock
  is not found although its status, code, user id and handle match and
  \<open>now \<le> expiresAt\<close> holds.
\<close>

theorem verify_code_step1_boundary_counterexample:
  "verify_code_step1 1800000
     \<lparr>s1_telegram = ''alice'', s1_code = ''123456'', s1_userId = ''U1''\<rparr>
     [\<lparr>v_id = ''V1'', v_userId = ''U1'', v_telegram = ''alice'', v_name = ''Alice'',
       v_phone = ''+998'', v_code = ''123456'', v_status = ''pending'',
       v_createdAt = 0, v_expiresAt = 1800000\<rparr>]
   = Inl NotFoundOrExpired \<and>
   v_status \<lparr>v_id = ''V1'', v_userId = ''U1'', v_telegram = ''alice'', v_name = ''Alice'',
       v_phone = ''+998'', v_code = ''123456'', v_status = ''pending'',
       v_createdAt = 0, v_expiresAt = 1800000\<rparr> = ''pending'' \<and>
   v_code \<lparr>v_id = ''V1'', v_userId = ''U1'', v_telegram = ''alice'', v_name = ''Alice'',
       v_phone = ''+998'', v_code = ''123456'', v_status = ''pending'',
       v_createdAt = 0, v_expiresAt = 1800000\<rparr> = ''123456'' \<and>
   v_userId \<lparr>v_id = ''V1'', v_userId = ''U1'', v_telegram = ''alice'', v_name = ''Alice'',
       v_phone = ''+998'', v_code = ''123456'', v_status = ''pending'',
       v_createdAt = 0, v_expiresAt = 1800000\<rparr> = ''U1'' \<and>
   v_telegram \<lparr>v_id = ''V1'', v_userId = ''U1'', v_telegram = ''alice'', v_name = ''Alice'',
       v_phone = ''+998'', v_code = ''123456'', v_status = ''pending'',
       v_createdAt = 0, v_expiresAt = 1800000\<rparr> = ''alice'' \<and>
   (1800000 :: int) \<le> v_expiresAt \<lparr>v_id = ''V1'', v_userId = ''U1'', v_telegram = ''alice'',
       v_name = ''Alice'', v_phone = ''+998'', v_code = ''123456'', v_status = ''pending'',
       v_createdAt = 0, v_expiresAt = 1800000\<rparr>"
  by (simp add: verify_code_step1_def step1_match_def)


section \<open>Completing the registration\<close>

lemma registration_match_gone:
  assumes d: "distinct (map v_userId vs)" and i: "i < length vs"
    and m: "v_userId (vs ! i) = userId"
  shows "update_found (registration_match userId now') f
           (vs[i := (vs ! i)\<lparr>v_status := ''completed''\<rparr>]) = None"
proof -
  have "\<not> registration_match userId now' x"
    if x: "x \<in> set (vs[i := (vs ! i)\<lparr>v_status := ''completed''\<rparr>])" for x
  proof -
    from x obtain j where j: "j < length vs"
      "x = vs[i := (vs ! i)\<lparr>v_status := ''completed''\<rparr>] ! j"
      by (auto simp: in_set_conv_nth)
    show ?thesis
    proof (cases "j = i")
      case True
      with j i show ?thesis by (simp add: registration_match_def)
    next
      case False
      with j have xj: "x = vs ! j" by simp
      have "map v_userId vs ! j \<noteq> map v_userId vs ! i"
        using d i j(1) False by (simp add: nth_eq_iff_index_eq del: nth_map)
      with i j(1) m xj show ?thesis by (simp add: registration_match_def)
    qed
  qed
  then show ?thesis by (simp add: update_found_None)
qed

lemma complete_registration_success:
  assumes "complete_registration hashedPassword token now body s = Inr (resp, s')"
  shows "fields_present body \<and> \<not> username_taken (cr_username body) (users s) \<and>
         (\<exists>i<length (verifications s).
            registration_match (cr_userId body) now (verifications s ! i) \<and>
            (\<forall>j<i. \<not> registration_match (cr_userId body) now (verifications s ! j)) \<and>
            s' = \<lparr>users = users s @
                     [\<lparr>u_id = cr_userId body,
                       u_username = cr_username body, u_password = hashedPassword,
                       u_name = cr_name body, u_phone = cr_phone body,
                       u_role = ''student'', u_telegram = cr_telegram body,
                       u_createdAt = now\<rparr>],
                   verifications = (verifications s)
                     [i := (verifications s ! i)\<lparr>v_status := ''completed''\<rparr>]\<rparr>)"
proof -
  from assms have fp: "fields_present body"
    and free: "\<not> username_taken (cr_username body) (users s)"
    by (auto simp: complete_registration_def split: if_splits)
  from assms fp free obtain ys where ys:
    "update_found (registration_match (cr_userId body) now)
       (\<lambda>v. v\<lparr>v_status := ''completed''\<rparr>) (verifications s) = Some ys"
    by (auto simp: complete_registration_def split: option.splits)
  with assms fp free have s': "s' = \<lparr>users = users s @
                     [\<lparr>u_id = cr_userId body,
                       u_username = cr_username body, u_password = hashedPassword,
                       u_name = cr_name body, u_phone = cr_phone body,
                       u_role = ''student'', u_telegram = cr_telegram body,
                       u_createdAt = now\<rparr>],
                   verifications = ys\<rparr>"
    by (simp add: complete_registration_def)
  from update_found_Some[OF ys] s' fp free show ?thesis by blast
qed


text \<open>
  C6 (as amended). A call of complete-registration with its six fields present fails
  with \<open>Conflict\<close> when the username is taken, whether or not a valid request exists.
  When the username is free, it fails with \<open>NotFoundOrExpired\<close> if no request carries
  the user id with status \<open>step1-verified\<close> and an expiry later than the clock;
  otherwise it succeeds, appends exactly one user whose id is the user id of the first
  such request, and sets that request to \<open>completed\<close>, leaving the other requests
  unchanged.
\<close>

theorem complete_registration_effect:
  assumes "fields_present body"
  shows "if username_taken (cr_username body) (users s)
         then complete_registration hashedPassword token now body s = Inl Conflict
         else if \<not> (\<exists>v\<in>set (verifications s). v_userId v = cr_userId body \<and>
                       v_status v = ''step1-verified'' \<and> now < v_expiresAt v)
         then complete_registration hashedPassword token now body s = Inl NotFoundOrExpired
         else \<exists>i<length (verifications s).
                registration_match (cr_userId body) now (verifications s ! i) \<and>
                (\<forall>j<i. \<not> registration_match (cr_userId body) now (verifications s ! j)) \<and>
                complete_registration hashedPassword token now body s =
                  Inr (\<lparr>rg_token = token, rg_id = v_userId (verifications s ! i),
                        rg_username = cr_username body, rg_name = cr_name body,
                        rg_role = ''student''\<rparr>,
                       \<lparr>users = users s @
                          [\<lparr>u_id = v_userId (verifications s ! i),
                            u_username = cr_username body, u_password = hashedPassword,
                            u_name = cr_name body, u_phone = cr_phone body,
                            u_role = ''student'', u_telegram = cr_telegram body,
                            u_createdAt = now\<rparr>],
                        verifications = (verifications s)
                          [i := (verifications s ! i)\<lparr>v_status := ''completed''\<rparr>]\<rparr>)"
proof (cases "username_taken (cr_username body) (users s)")
  case True
  with assms show ?thesis by (simp add: complete_registration_def)
next
  case free: False
  show ?thesis
  proof (cases "update_found (registration_match (cr_userId body) now)
                  (\<lambda>v. v\<lparr>v_status := ''completed''\<rparr>) (verifications s)")
    case None
    then have "\<forall>v\<in>set (verifications s). \<not> registration_match (cr_userId body) now v"
      by (simp add: update_found_None)
    then have "\<not> (\<exists>v\<in>set (verifications s). v_userId v = cr_userId body \<and>
                       v_status v = ''step1-verified'' \<and> now < v_expiresAt v)"
      by (auto simp: registration_match_def)
    moreover have "complete_registration hashedPassword token now body s = Inl NotFoundOrExpired"
      using assms free None by (simp add: complete_registration_def)
    ultimately show ?thesis using free by simp
  next
    case (Some ys)
    from update_found_Some[OF Some] obtain i where i: "i < length (verifications s)"
      "registration_match (cr_userId body) now (verifications s ! i)"
      "\<forall>j<i. \<not> registration_match (cr_userId body) now (verifications s ! j)"
      "ys = (verifications s)[i := (verifications s ! i)\<lparr>v_status := ''completed''\<rparr>]"
      by blast
    have uid: "v_userId (verifications s ! i) = cr_userId body"
      using i(2) by (simp add: registration_match_def)
    have run: "complete_registration hashedPassword token now body s =
                  Inr (\<lparr>rg_token = token, rg_id = v_userId (verifications s ! i),
                        rg_username = cr_username body, rg_name = cr_name body,
                        rg_role = ''student''\<rparr>,
                       \<lparr>users = users s @
                          [\<lparr>u_id = v_userId (verifications s ! i),
                            u_username = cr_username body, u_password = hashedPassword,
                            u_name = cr_name body, u_phone = cr_phone body,
                            u_role = ''student'', u_telegram = cr_telegram body,
                            u_createdAt = now\<rparr>],
                        verifications = ys\<rparr>)"
      using assms free Some uid by (simp add: complete_registration_def)
    have "verifications s ! i \<in> set (verifications s)" using i(1) by simp
    with i(2) have ex: "\<exists>v\<in>set (verifications s). v_userId v = cr_userId body \<and>
                       v_status v = ''step1-verified'' \<and> now < v_expiresAt v"
      unfolding registration_match_def by blast
    have "\<exists>i<length (verifications s).
                registration_match (cr_userId body) now (verifications s ! i) \<and>
                (\<forall>j<i. \<not> registration_match (cr_userId body) now (verifications s ! j)) \<and>
                complete_registration hashedPassword token now body s =
                  Inr (\<lparr>rg_token = token, rg_id = v_userId (verifications s ! i),
                        rg_username = cr_username body, rg_name = cr_name body,
                        rg_role = ''student''\<rparr>,
                       \<lparr>users = users s @
                          [\<lparr>u_id = v_userId (verifications s ! i),
                            u_username = cr_username body, u_password = hashedPassword,
                            u_name = cr_name body, u_phone = cr_phone body,
                            u_role = ''student'', u_telegram = cr_telegram body,
                            u_createdAt = now\<rparr>],
                        verifications = (verifications s)
                          [i := (verifications s ! i)\<lparr>v_status := ''completed''\<rparr>]\<rparr>)"
      using i run by blast
    with free ex show ?thesis by simp
  qed
qed



theorem complete_registration_effect_witness:
  "fields_present \<lparr>cr_userId = ''U1'', cr_username = ''alice_t'', cr_password = ''pw'',
      cr_name = ''Alice'', cr_phone = ''+998'', cr_telegram = ''alice''\<rparr> \<and>
   complete_registration ''HASH'' ''TOKEN'' 2000
     \<lparr>cr_userId = ''U1'', cr_username = ''alice_t'', cr_password = ''pw'',
      cr_name = ''Alice'', cr_phone = ''+998'', cr_telegram = ''alice''\<rparr>
     \<lparr>users = [],
      verifications =
        [\<lparr>v_id = ''V1'', v_userId = ''U1'', v_telegram = ''alice'', v_name = ''Alice'',
          v_phone = ''+998'', v_code = ''123456'', v_status = ''step1-verified'',
          v_createdAt = 0, v_expiresAt = 1800000\<rparr>]\<rparr>
   = Inr (\<lparr>rg_token = ''TOKEN'', rg_id = ''U1'', rg_username = ''alice_t'',
           rg_name = ''Alice'', rg_role = ''student''\<rparr>,
          \<lparr>users =
             [\<lparr>u_id = ''U1'', u_username = ''alice_t'', u_password = ''HASH'',
               u_name = ''Alice'', u_phone = ''+998'', u_role = ''student'',
               u_telegram = ''alice'', u_createdAt = 2000\<rparr>],
           verifications =
             [\<lparr>v_id = ''V1'', v_userId = ''U1'', v_telegram = ''alice'', v_name = ''Alice'',
               v_phone = ''+998'', v_code = ''123456'', v_status = ''completed'',
               v_createdAt = 0, v_expiresAt = 1800000\<rparr>]\<rparr>) \<and>
   complete_registration ''HASH'' ''TOKEN'' 2000
     \<lparr>cr_userId = ''U1'', cr_username = ''alice_t'', cr_password = ''pw'',
      cr_name = ''Alice'', cr_phone = ''+998'', cr_telegram = ''alice''\<rparr>
     \<lparr>users =
        [\<lparr>u_id = ''U0'', u_username = ''alice_t'', u_password = ''H0'',
          u_name = ''Other'', u_phone = ''+997'', u_role = ''student'',
          u_telegram = ''other'', u_createdAt = 0\<rparr>],
      verifications =
        [\<lparr>v_id = ''V1'', v_userId = ''U1'', v_telegram = ''alice'', v_name = ''Alice'',
          v_phone = ''+998'', v_code = ''123456'', v_status = ''step1-verified'',
          v_createdAt = 0, v_expiresAt = 1800000\<rparr>]\<rparr>
   = Inl Conflict \<and>
   complete_registration ''HASH'' ''TOKEN'' 2000
     \<lparr>cr_userId = ''U1'', cr_username = ''alice_t'', cr_password = ''pw'',
      cr_name = ''Alice'', cr_phone = ''+998'', cr_telegram = ''alice''\<rparr>
     \<lparr>users = [],
      verifications =
        [\<lparr>v_id = ''V1'', v_userId = ''U1'', v_telegram = ''alice'', v_name = ''Alice'',
          v_phone = ''+998'', v_code = ''123456'', v_status = ''pending'',
          v_createdAt = 0, v_expiresAt = 1800000\<rparr>]\<rparr>
   = Inl NotFoundOrExpired"
proof -
  let ?body = "\<lparr>cr_userId = ''U1'', cr_username = ''alice_t'', cr_password = ''pw'',
      cr_name = ''Alice'', cr_phone = ''+998'', cr_telegram = ''alice''\<rparr>"
  let ?v = "\<lparr>v_id = ''V1'', v_userId = ''U1'', v_telegram = ''alice'', v_name = ''Alice'',
          v_phone = ''+998'', v_code = ''123456'', v_status = ''step1-verified'',
          v_createdAt = 0, v_expiresAt = 1800000\<rparr>"
  let ?p = "\<lparr>v_id = ''V1'', v_userId = ''U1'', v_telegram = ''alice'', v_name = ''Alice'',
          v_phone = ''+998'', v_code = ''123456'', v_status = ''pending'',
          v_createdAt = 0, v_expiresAt = 1800000\<rparr>"
  let ?u0 = "\<lparr>u_id = ''U0'', u_username = ''alice_t'', u_password = ''H0'',
          u_name = ''Other'', u_phone = ''+997'', u_role = ''student'',
          u_telegram = ''other'', u_createdAt = 0\<rparr>"
  have f: "fields_present ?body" by (simp add: fields_present_def)
  have ok: "complete_registration ''HASH'' ''TOKEN'' 2000 ?body \<lparr>users = [], verifications = [?v]\<rparr>
      = Inr (\<lparr>rg_token = ''TOKEN'', rg_id = ''U1'', rg_username = ''alice_t'',
           rg_name = ''Alice'', rg_role = ''student''\<rparr>,
          \<lparr>users =
             [\<lparr>u_id = ''U1'', u_username = ''alice_t'', u_password = ''HASH'',
               u_name = ''Alice'', u_phone = ''+998'', u_role = ''student'',
               u_telegram = ''alice'', u_createdAt = 2000\<rparr>],
           verifications = [?v\<lparr>v_status := ''completed''\<rparr>]\<rparr>)"
    using complete_registration_effect[OF f, where s = "\<lparr>users = [], verifications = [?v]\<rparr>"
        and now = 2000 and hashedPassword = "''HASH''" and token = "''TOKEN''"]
    by (simp add: username_taken_def)
  have taken: "complete_registration ''HASH'' ''TOKEN'' 2000 ?body
       \<lparr>users = [?u0], verifications = [?v]\<rparr> = Inl Conflict"
    using complete_registration_effect[OF f, where s = "\<lparr>users = [?u0], verifications = [?v]\<rparr>"
        and now = 2000 and hashedPassword = "''HASH''" and token = "''TOKEN''"]
    by (simp add: username_taken_def)
  have none: "complete_registration ''HASH'' ''TOKEN'' 2000 ?body
       \<lparr>users = [], verifications = [?p]\<rparr> = Inl NotFoundOrExpired"
    using complete_registration_effect[OF f, where s = "\<lparr>users = [], verifications = [?p]\<rparr>"
        and now = 2000 and hashedPassword = "''HASH''" and token = "''TOKEN''"]
    by (simp add: username_taken_def)
  from f ok taken none show ?thesis by simp
qed


text \<open>
  C6 as stated fails: the username is looked up first. With the username taken and no
  \<open>step1-verified\<close> request for the user id, the handler answers \<open>Conflict\<close>, not
  \<open>NotFoundOrExpired\<close>.
\<close>

theorem complete_registration_precedence_counterexample:
  "complete_registration ''HASH'' ''TOKEN'' 2000
     \<lparr>cr_userId = ''U2'', cr_username = ''alice_t'', cr_password = ''pw'',
      cr_name = ''Alice'', cr_phone = ''+998'', cr_telegram = ''alice''\<rparr>
     \<lparr>users =
        [\<lparr>u_id = ''U1'', u_username = ''alice_t'', u_password = ''H1'',
          u_name = ''Alice'', u_phone = ''+998'', u_role = ''student'',
          u_telegram = ''alice'', u_createdAt = 1000\<rparr>],
      verifications =
        [\<lparr>v_id = ''V2'', v_userId = ''U2'', v_telegram = ''alice'', v_name = ''Alice'',
          v_phone = ''+998'', v_code = ''123456'', v_status = ''pending'',
          v_createdAt = 0, v_expiresAt = 1800000\<rparr>]\<rparr>
   = Inl Conflict \<and>
   \<not> list_ex (registration_match ''U2'' 2000)
     [\<lparr>v_id = ''V2'', v_userId = ''U2'', v_telegram = ''alice'', v_name = ''Alice'',
       v_phone = ''+998'', v_code = ''123456'', v_status = ''pending'',
       v_createdAt = 0, v_expiresAt = 1800000\<rparr>]"
  by (simp add: complete_registration_def fields_present_def username_taken_def
        registration_match_def)

text \<open>
  C5 (as amended). After complete-registration has succeeded, repeating the call with
  the same arguments fails with \<open>Conflict\<close>. Any second call with the same user id and
  all fields present fails, provided the requests carry pairwise distinct user ids (as
  freshly drawn identifiers do): with \<open>Conflict\<close> when its username is taken and with
  \<open>NotFoundOrExpired\<close> when its username is free.
\<close>

theorem complete_registration_twice:
  assumes first: "complete_registration hashedPassword token now body s = Inr (resp, s')"
  shows "complete_registration hashedPassword' token' now' body s' = Inl Conflict \<and>
         (fields_present body' \<and> cr_userId body' = cr_userId body \<and>
          distinct (map v_userId (verifications s)) \<longrightarrow>
            complete_registration hashedPassword' token' now' body' s' =
              (if username_taken (cr_username body') (users s') then Inl Conflict
               else Inl NotFoundOrExpired))"
proof -
  from complete_registration_success[OF first]
  obtain i where fp: "fields_present body" and i: "i < length (verifications s)"
    "registration_match (cr_userId body) now (verifications s ! i)"
    "s' = \<lparr>users = users s @
              [\<lparr>u_id = cr_userId body,
                u_username = cr_username body, u_password = hashedPassword,
                u_name = cr_name body, u_phone = cr_phone body,
                u_role = ''student'', u_telegram = cr_telegram body,
                u_createdAt = now\<rparr>],
            verifications = (verifications s)
              [i := (verifications s ! i)\<lparr>v_status := ''completed''\<rparr>]\<rparr>"
    by blast
  have taken: "username_taken (cr_username body) (users s')"
    by (simp add: i(3) username_taken_def)
  have again: "complete_registration hashedPassword' token' now' body s' = Inl Conflict"
    using fp taken by (simp add: complete_registration_def)
  have other: "complete_registration hashedPassword' token' now' body' s' =
           (if username_taken (cr_username body') (users s') then Inl Conflict
            else Inl NotFoundOrExpired)"
    if fields: "fields_present body'" and same: "cr_userId body' = cr_userId body"
      and fresh: "distinct (map v_userId (verifications s))"
  proof -
    have uid: "v_userId (verifications s ! i) = cr_userId body'"
      using i(2) same by (simp add: registration_match_def)
    have gone: "update_found (registration_match (cr_userId body') now')
             (\<lambda>v. v\<lparr>v_status := ''completed''\<rparr>) (verifications s') = None"
      using registration_match_gone[OF fresh i(1) uid] by (simp add: i(3))
    show ?thesis using fields gone by (simp add: complete_registration_def)
  qed
  from again other show ?thesis by blast
qed

theorem complete_registration_twice_witness:
  "complete_registration ''HASH'' ''TOKEN'' 2000
     \<lparr>cr_userId = ''U1'', cr_username = ''alice_t'', cr_password = ''pw'',
      cr_name = ''Alice'', cr_phone = ''+998'', cr_telegram = ''alice''\<rparr>
     \<lparr>users = [],
      verifications =
        [\<lparr>v_id = ''V1'', v_userId = ''U1'', v_telegram = ''alice'', v_name = ''Alice'',
          v_phone = ''+998'', v_code = ''123456'', v_status = ''step1-verified'',
          v_createdAt = 0, v_expiresAt = 1800000\<rparr>]\<rparr>
   = Inr (\<lparr>rg_token = ''TOKEN'', rg_id = ''U1'', rg_username = ''alice_t'',
           rg_name = ''Alice'', rg_role = ''student''\<rparr>,
          \<lparr>users =
             [\<lparr>u_id = ''U1'', u_username = ''alice_t'', u_password = ''HASH'',
               u_name = ''Alice'', u_phone = ''+998'', u_role = ''student'',
               u_telegram = ''alice'', u_createdAt = 2000\<rparr>],
           verifications =
             [\<lparr>v_id = ''V1'', v_userId = ''U1'', v_telegram = ''alice'', v_name = ''Alice'',
               v_phone = ''+998'', v_code = ''123456'', v_status = ''completed'',
               v_createdAt = 0, v_expiresAt = 1800000\<rparr>]\<rparr>) \<and>
   fields_present \<lparr>cr_userId = ''U1'', cr_username = ''alice_2'', cr_password = ''pw'',
      cr_name = ''Alice'', cr_phone = ''+998'', cr_telegram = ''alice''\<rparr> \<and>
   distinct (map v_userId
        [\<lparr>v_id = ''V1'', v_userId = ''U1'', v_telegram = ''alice'', v_name = ''Alice'',
          v_phone = ''+998'', v_code = ''123456'', v_status = ''step1-verified'',
          v_createdAt = 0, v_expiresAt = 1800000\<rparr>]) \<and>
   complete_registration ''HASH2'' ''TOKEN2'' 3000
     \<lparr>cr_userId = ''U1'', cr_username = ''alice_2'', cr_password = ''pw'',
      cr_name = ''Alice'', cr_phone = ''+998'', cr_telegram = ''alice''\<rparr>
     \<lparr>users =
        [\<lparr>u_id = ''U1'', u_username = ''alice_t'', u_password = ''HASH'',
          u_name = ''Alice'', u_phone = ''+998'', u_role = ''student'',
          u_telegram = ''alice'', u_createdAt = 2000\<rparr>],
      verifications =
        [\<lparr>v_id = ''V1'', v_userId = ''U1'', v_telegram = ''alice'', v_name = ''Alice'',
          v_phone = ''+998'', v_code = ''123456'', v_status = ''completed'',
          v_createdAt = 0, v_expiresAt = 1800000\<rparr>]\<rparr>
   = Inl NotFoundOrExpired"
proof -
  let ?body = "\<lparr>cr_userId = ''U1'', cr_username = ''alice_t'', cr_password = ''pw'',
      cr_name = ''Alice'', cr_phone = ''+998'', cr_telegram = ''alice''\<rparr>"
  let ?body' = "\<lparr>cr_userId = ''U1'', cr_username = ''alice_2'', cr_password = ''pw'',
      cr_name = ''Alice'', cr_phone = ''+998'', cr_telegram = ''alice''\<rparr>"
  let ?v = "\<lparr>v_id = ''V1'', v_userId = ''U1'', v_telegram = ''alice'', v_name = ''Alice'',
          v_phone = ''+998'', v_code = ''123456'', v_status = ''step1-verified'',
          v_createdAt = 0, v_expiresAt = 1800000\<rparr>"
  let ?s = "\<lparr>users = [], verifications = [?v]\<rparr>"
  let ?u = "\<lparr>u_id = ''U1'', u_username = ''alice_t'', u_password = ''HASH'',
          u_name = ''Alice'', u_phone = ''+998'', u_role = ''student'',
          u_telegram = ''alice'', u_createdAt = 2000\<rparr>"
  let ?s' = "\<lparr>users = [?u], verifications = [?v\<lparr>v_status := ''completed''\<rparr>]\<rparr>"
  let ?resp = "\<lparr>rg_token = ''TOKEN'', rg_id = ''U1'', rg_username = ''alice_t'',
           rg_name = ''Alice'', rg_role = ''student''\<rparr>"
  have first: "complete_registration ''HASH'' ''TOKEN'' 2000 ?body ?s = Inr (?resp, ?s')"
    by (simp add: complete_registration_def fields_present_def username_taken_def
        registration_match_def)
  have fields: "fields_present ?body'" by (simp add: fields_present_def)
  have same: "cr_userId ?body' = cr_userId ?body" by simp
  have fresh: "distinct (map v_userId (verifications ?s))" by simp
  have "complete_registration ''HASH2'' ''TOKEN2'' 3000 ?body' ?s' =
          (if username_taken (cr_username ?body') (users ?s') then Inl Conflict
           else Inl NotFoundOrExpired)"
    using complete_registration_twice[OF first,
        where hashedPassword' = "''HASH2''" and token' = "''TOKEN2''" and now' = 3000
          and body' = ?body'] fields same fresh
    by blast
  then have "complete_registration ''HASH2'' ''TOKEN2'' 3000 ?body' ?s' = Inl NotFoundOrExpired"
    by (simp add: username_taken_def)
  with first fields fresh show ?thesis by simp
qed


text \<open>
  C5 as stated fails: the handler looks the username up before the verification
  request, so repeating the successful call with the same arguments answers
  \<open>Conflict\<close>, not \<open>NotFoundOrExpired\<close>.
\<close>

theorem complete_registration_twice_counterexample:
  "complete_registration ''HASH'' ''TOKEN'' 2000
     \<lparr>cr_userId = ''U1'', cr_username = ''alice_t'', cr_password = ''pw'',
      cr_name = ''Alice'', cr_phone = ''+998'', cr_telegram = ''alice''\<rparr>
     \<lparr>users = [],
      verifications =
        [\<lparr>v_id = ''V1'', v_userId = ''U1'', v_telegram = ''alice'', v_name = ''Alice'',
          v_phone = ''+998'', v_code = ''123456'', v_status = ''step1-verified'',
          v_createdAt = 0, v_expiresAt = 1800000\<rparr>]\<rparr>
   = Inr (\<lparr>rg_token = ''TOKEN'', rg_id = ''U1'', rg_username = ''alice_t'',
           rg_name = ''Alice'', rg_role = ''student''\<rparr>,
          \<lparr>users =
             [\<lparr>u_id = ''U1'', u_username = ''alice_t'', u_password = ''HASH'',
               u_name = ''Alice'', u_phone = ''+998'', u_role = ''student'',
               u_telegram = ''alice'', u_createdAt = 2000\<rparr>],
           verifications =
             [\<lparr>v_id = ''V1'', v_userId = ''U1'', v_telegram = ''alice'', v_name = ''Alice'',
               v_phone = ''+998'', v_code = ''123456'', v_status = ''completed'',
               v_createdAt = 0, v_expiresAt = 1800000\<rparr>]\<rparr>) \<and>
   complete_registration ''HASH2'' ''TOKEN2'' 3000
     \<lparr>cr_userId = ''U1'', cr_username = ''alice_t'', cr_password = ''pw'',
      cr_name = ''Alice'', cr_phone = ''+998'', cr_telegram = ''alice''\<rparr>
     \<lparr>users =
        [\<lparr>u_id = ''U1'', u_username = ''alice_t'', u_password = ''HASH'',
          u_name = ''Alice'', u_phone = ''+998'', u_role = ''student'',
          u_telegram = ''alice'', u_createdAt = 2000\<rparr>],
      verifications =
        [\<lparr>v_id = ''V1'', v_userId = ''U1'', v_telegram = ''alice'', v_name = ''Alice'',
          v_phone = ''+998'', v_code = ''123456'', v_status = ''completed'',
          v_createdAt = 0, v_expiresAt = 1800000\<rparr>]\<rparr>
   = Inl Conflict"
  by (simp add: complete_registration_def fields_present_def username_taken_def
        registration_match_def)

section \<open>Rounding to doubles\<close>

lemma rte_le_int: "y \<le> of_int m \<Longrightarrow> round_ties_even y \<le> m"
proof -
  assume y: "y \<le> of_int m"
  have f: "\<lfloor>y\<rfloor> \<le> m" using y by (simp add: floor_le_iff)
  show ?thesis
  proof (cases "\<lfloor>y\<rfloor> = m")
    case True
    with y have "y = of_int m" by linarith
    then show ?thesis by (simp add: round_ties_even_def)
  next
    case False
    with f have "\<lfloor>y\<rfloor> + 1 \<le> m" by simp
    with f show ?thesis by (simp add: round_ties_even_def Let_def)
  qed
qed

lemma rte_ge_int: "of_int m \<le> y \<Longrightarrow> m \<le> round_ties_even y"
proof -
  assume "of_int m \<le> y"
  then have "m \<le> \<lfloor>y\<rfloor>" by (simp add: le_floor_iff)
  then show ?thesis by (simp add: round_ties_even_def Let_def)
qed

lemma rte_below_half: "y < of_int m - 1 / 2 \<Longrightarrow> round_ties_even y \<le> m - 1"
proof -
  assume y: "y < of_int m - 1 / 2"
  from y have "y < of_int m" by linarith
  then have "\<lfloor>y\<rfloor> < m" by (simp add: floor_less_iff)
  then have f: "\<lfloor>y\<rfloor> \<le> m - 1" by simp
  show ?thesis
  proof (cases "\<lfloor>y\<rfloor> = m - 1")
    case True
    then have "y - of_int \<lfloor>y\<rfloor> < 1 / 2" using y by simp
    with True show ?thesis by (simp add: round_ties_even_def)
  next
    case False
    with f have "\<lfloor>y\<rfloor> + 1 \<le> m - 1" by simp
    with f show ?thesis by (simp add: round_ties_even_def Let_def)
  qed
qed

lemma binade_bounds:
  assumes "0 < x"
  shows "2 powr of_int (binade x) \<le> x" and "x < 2 powr (of_int (binade x) + 1)"
  using floor_log_eq_powr_iff[of x 2 "binade x"] assms
  by (simp_all add: binade_def)

lemma binade_eq: "0 < x \<Longrightarrow> 2 powr of_int k \<le> x \<Longrightarrow> x < 2 powr (of_int k + 1) \<Longrightarrow> binade x = k"
  using floor_log_eq_powr_iff[of x 2 k] by (simp add: binade_def)

lemma binade_less: 
  assumes "0 < x" and "x < 2 powr of_int k"
  shows "binade x < k"
proof -
  from binade_bounds(1)[OF assms(1)] assms(2)
  have "2 powr of_int (binade x) < (2::real) powr of_int k" by linarith
  then show ?thesis by simp
qed

lemma ulp_pos: "0 < ulp x"
  by (simp add: ulp_def)


lemma inverse_ulp:
  assumes "0 < x" and "binade x \<le> K"
  shows "1 / ulp x = 2 powr of_int (52 - K) * 2 ^ nat (K - binade x)"
proof -
  have "1 / ulp x = 1 / 2 powr (of_int (binade x) - 52)"
    by (simp add: ulp_def)
  also have "\<dots> = 2 powr (- (of_int (binade x) - 52))"
    by (rule powr_minus_divide[symmetric])
  also have "- (of_int (binade x) - 52) = of_int (52 - K) + real (nat (K - binade x))"
    using assms(2) by simp
  also have "2 powr (of_int (52 - K) + real (nat (K - binade x))) =
      2 powr of_int (52 - K) * 2 ^ nat (K - binade x)"
    by (simp add: powr_add powr_realpow)
  finally show ?thesis .
qed

lemma round_double_nonneg: "0 \<le> x \<Longrightarrow> 0 \<le> round_double x"
proof -
  assume x: "0 \<le> x"
  have "0 \<le> x / ulp x" using x ulp_pos[of x] by simp
  then have "0 \<le> round_ties_even (x / ulp x)" using rte_ge_int[of 0 "x / ulp x"] by simp
  then show ?thesis using ulp_pos[of x] by (simp add: round_double_def)
qed

lemma round_double_upper_grid:
  assumes "0 < x" and "x \<le> of_int N / 2 ^ 33" and "x < 2 ^ 20"
  shows "round_double x \<le> of_int N / 2 ^ 33"
proof -
  have "x < 2 powr of_int 20" using assms(3) by (simp add: powr_realpow[symmetric])
  from binade_less[OF assms(1) this] have e: "binade x \<le> 19" by simp
  define j where "j = nat (19 - binade x)"
  have inv: "1 / ulp x = 2 ^ 33 * 2 ^ j"
    using inverse_ulp[OF assms(1) e] by (simp add: j_def)
  have "ulp x = 1 / (1 / ulp x)" by simp
  then have u: "ulp x = 1 / (2 ^ 33 * 2 ^ j)" by (simp only: inv)
  have "x / ulp x = x * (1 / ulp x)" by simp
  also have "\<dots> = x * 2 ^ 33 * 2 ^ j" by (simp add: inv)
  also have "\<dots> \<le> of_int N * 2 ^ j"
  proof -
    from assms(2) have "x * 2 ^ 33 \<le> of_int N" by (simp add: pos_le_divide_eq)
    then show ?thesis by (intro mult_right_mono) simp_all
  qed
  finally have "x / ulp x \<le> of_int (N * 2 ^ j)" by simp
  from rte_le_int[OF this]
  have "of_int (round_ties_even (x / ulp x)) \<le> (of_int (N * 2 ^ j) :: real)"
    by (simp only: of_int_le_iff)
  then have le: "of_int (round_ties_even (x / ulp x)) * ulp x \<le> of_int (N * 2 ^ j) * ulp x"
    using ulp_pos[of x] by (intro mult_right_mono) simp_all
  have eq: "of_int (N * 2 ^ j) * ulp x = of_int N / 2 ^ 33"
    by (simp add: u)
  from le have "of_int (round_ties_even (x / ulp x)) * ulp x \<le> of_int N / 2 ^ 33"
    unfolding eq .
  then show ?thesis using assms(1) by (simp add: round_double_def)
qed

lemma round_double_lower_int:
  assumes "0 < x" and "of_int k \<le> x" and "x < 2 ^ 53"
  shows "of_int k \<le> round_double x"
proof -
  have "x < 2 powr of_int 53" using assms(3) by (simp add: powr_realpow[symmetric])
  from binade_less[OF assms(1) this] have e: "binade x \<le> 52" by simp
  define j where "j = nat (52 - binade x)"
  have inv: "1 / ulp x = 2 ^ j"
    using inverse_ulp[OF assms(1) e] by (simp add: j_def)
  have "ulp x = 1 / (1 / ulp x)" by simp
  then have u: "ulp x = 1 / 2 ^ j" by (simp only: inv)
  have "of_int (k * 2 ^ j) \<le> x * 2 ^ j" using assms(2) by (simp add: mult_right_mono)
  also have "x * 2 ^ j = x / ulp x" by (simp add: u)
  finally have "of_int (k * 2 ^ j) \<le> x / ulp x" .
  from rte_ge_int[OF this]
  have "(of_int (k * 2 ^ j) :: real) \<le> of_int (round_ties_even (x / ulp x))"
    by (simp only: of_int_le_iff)
  then have le: "of_int (k * 2 ^ j) * ulp x \<le> of_int (round_ties_even (x / ulp x)) * ulp x"
    using ulp_pos[of x] by (intro mult_right_mono) simp_all
  have eq: "of_int (k * 2 ^ j) * ulp x = of_int k" by (simp add: u)
  from le have "of_int k \<le> of_int (round_ties_even (x / ulp x)) * ulp x"
    unfolding eq .
  then show ?thesis using assms(1) by (simp add: round_double_def)
qed

lemma round_double_within_binade:
  assumes "0 < x"
  shows "round_double x \<le> 2 powr (of_int (binade x) + 1)"
proof -
  have split: "(2::real) powr (of_int (binade x) + 1) = 2 ^ 53 * ulp x"
  proof -
    have "of_int (binade x) + 1 = 53 + (of_int (binade x) - 52 :: real)" by simp
    then have "(2::real) powr (of_int (binade x) + 1) =
        2 powr 53 * 2 powr (of_int (binade x) - 52)"
      by (simp only: powr_add)
    then show ?thesis by (simp add: ulp_def)
  qed
  from binade_bounds(2)[OF assms] have "x < 2 ^ 53 * ulp x" by (simp only: split)
  then have "x / ulp x < 2 ^ 53" using ulp_pos[of x] by (simp add: pos_divide_less_eq)
  then have "x / ulp x \<le> of_int (2 ^ 53)" by simp
  from rte_le_int[OF this]
  have "(of_int (round_ties_even (x / ulp x)) :: real) \<le> of_int (2 ^ 53)"
    by (simp only: of_int_le_iff)
  then have "of_int (round_ties_even (x / ulp x)) \<le> (2 ^ 53 :: real)" by simp
  then have "of_int (round_ties_even (x / ulp x)) * ulp x \<le> 2 ^ 53 * ulp x"
    using ulp_pos[of x] by (intro mult_right_mono) simp_all
  then have "of_int (round_ties_even (x / ulp x)) * ulp x \<le> 2 powr (of_int (binade x) + 1)"
    by (simp only: split)
  then show ?thesis using assms by (simp add: round_double_def)
qed

lemma round_double_small_int:
  assumes "0 < k" and "k < 2 ^ 20"
  shows "round_double (of_int k) = of_int k"
proof -
  have pos: "0 < (of_int k :: real)" using assms(1) by simp
  have "(of_int k :: real) < of_int (2 ^ 20)" using assms(2) by (simp only: of_int_less_iff)
  then have lt: "(of_int k :: real) < 2 ^ 20" by simp
  then have lt': "(of_int k :: real) < 2 ^ 53" by simp
  have "(of_int k :: real) \<le> of_int (k * 2 ^ 33) / 2 ^ 33" by simp
  from round_double_upper_grid[OF pos this lt]
  have "round_double (of_int k) \<le> of_int k" by simp
  moreover from round_double_lower_int[OF pos _ lt', of k]
  have "of_int k \<le> round_double (of_int k)" by simp
  ultimately show ?thesis by simp
qed

lemma rte_floor: "of_int f \<le> y \<Longrightarrow> y < of_int f + 1 / 2 \<Longrightarrow> round_ties_even y = f"
proof -
  assume a: "of_int f \<le> y" "y < of_int f + 1 / 2"
  then have "\<lfloor>y\<rfloor> = f" by (simp add: floor_eq_iff)
  with a show ?thesis by (simp add: round_ties_even_def)
qed

lemma rte_ceiling:
  "of_int f + 1 / 2 < y \<Longrightarrow> y < of_int f + 1 \<Longrightarrow> round_ties_even y = f + 1"
proof -
  assume a: "of_int f + 1 / 2 < y" "y < of_int f + 1"
  then have "\<lfloor>y\<rfloor> = f" by (simp add: floor_eq_iff)
  with a show ?thesis by (simp add: round_ties_even_def)
qed

lemma rte_error: "\<bar>of_int (round_ties_even y) - y\<bar> \<le> 1 / 2"
proof -
  have "of_int \<lfloor>y\<rfloor> \<le> y" "y < of_int \<lfloor>y\<rfloor> + 1" by linarith+
  then show ?thesis by (simp add: round_ties_even_def Let_def)
qed

lemma round_double_at:
  assumes "0 < x" and "2 powr of_int e \<le> x" and "x < 2 powr (of_int e + 1)"
  shows "round_double x =
           of_int (round_ties_even (x / 2 powr (of_int e - 52))) * 2 powr (of_int e - 52)"
  using assms binade_eq[OF assms] by (simp add: round_double_def ulp_def)

lemma ulp_le:
  assumes "0 < x"
  shows "ulp x \<le> x / 2 ^ 52"
proof -
  have "ulp x = 2 powr of_int (binade x) / 2 powr 52"
    by (simp add: ulp_def powr_diff)
  also have "\<dots> \<le> x / 2 powr 52"
    using binade_bounds(1)[OF assms] by (intro divide_right_mono) simp_all
  finally show ?thesis by simp
qed

lemma round_double_error:
  assumes "0 < x"
  shows "\<bar>round_double x - x\<bar> \<le> x / 2 ^ 53"
proof -
  have u: "0 < ulp x" by (rule ulp_pos)
  have "round_double x - x = (of_int (round_ties_even (x / ulp x)) - x / ulp x) * ulp x"
    using assms u by (simp add: round_double_def left_diff_distrib)
  then have "\<bar>round_double x - x\<bar> = \<bar>of_int (round_ties_even (x / ulp x)) - x / ulp x\<bar> * ulp x"
    using u by (simp add: abs_mult)
  also have "\<dots> \<le> 1 / 2 * ulp x"
    using u rte_error[of "x / ulp x"] by (intro mult_right_mono) simp_all
  also have "\<dots> \<le> 1 / 2 * (x / 2 ^ 52)"
    using ulp_le[OF assms] by simp
  finally show ?thesis by simp
qed

lemma round_double_pos:
  assumes "0 < x"
  shows "0 < round_double x"
proof -
  from round_double_error[OF assms] have "x - x / 2 ^ 53 \<le> round_double x" by linarith
  moreover have "0 < x - x / 2 ^ 53" using assms by (simp add: field_simps)
  ultimately show ?thesis by linarith
qed

lemma round_double_half: "round_double (1 / 2) = 1 / 2"
proof -
  have "round_double (1 / 2) =
      of_int (round_ties_even ((1 / 2) / 2 powr (of_int (- 1) - 52))) * 2 powr (of_int (- 1) - 52)"
    by (rule round_double_at) (simp_all add: powr_minus_divide)
  moreover have p: "(2::real) powr (of_int (- 1) - 52) = 1 / 2 ^ 53"
  proof -
    have "(2::real) powr (of_int (- 1) - 52) = 2 powr (- 53)" by simp
    also have "\<dots> = 1 / 2 powr 53" by (rule powr_minus_divide)
    finally show ?thesis by simp
  qed
  moreover have "round_ties_even ((1 / 2) / (1 / 2 ^ 53)) = 2 ^ 52"
    by (rule rte_floor) simp_all
  ultimately show ?thesis by (simp only: p) simp
qed

lemma double_score_error:
  assumes "0 \<le> q"
  shows "\<bar>round_double (round_double q * 100) - 100 * q\<bar> \<le> 100 * q / 2 ^ 51"
proof (cases "q = 0")
  case True
  then show ?thesis by (simp add: round_double_def)
next
  case False
  with assms have q: "0 < q" by simp
  define q' where "q' = round_double q"
  define s where "s = round_double (q' * 100)"
  have q'0: "0 < q'" unfolding q'_def by (rule round_double_pos[OF q])
  have e1: "\<bar>q' - q\<bar> \<le> q / 2 ^ 53" unfolding q'_def by (rule round_double_error[OF q])
  have p0: "0 < q' * 100" using q'0 by simp
  have e2: "\<bar>s - q' * 100\<bar> \<le> q' * 100 / 2 ^ 53"
    unfolding s_def by (rule round_double_error[OF p0])
  from e1 have q'le: "q' \<le> q + q / 2 ^ 53" by linarith
  then have "q' * 100 / 2 ^ 53 \<le> (q + q / 2 ^ 53) * 100 / 2 ^ 53"
    by (intro divide_right_mono mult_right_mono) simp_all
  with e2 have e3: "\<bar>s - q' * 100\<bar> \<le> (q + q / 2 ^ 53) * 100 / 2 ^ 53" by linarith
  have "q / 2 ^ 53 \<le> q" using q by (simp add: field_simps)
  then have "(q + q / 2 ^ 53) * 100 / 2 ^ 53 \<le> (q + q) * 100 / 2 ^ 53"
    by (intro divide_right_mono mult_right_mono) simp_all
  with e3 have e4: "\<bar>s - q' * 100\<bar> \<le> 200 * q / 2 ^ 53" by simp
  from e1 have e5: "\<bar>q' * 100 - 100 * q\<bar> \<le> 100 * q / 2 ^ 53" by (simp add: abs_if split: if_splits) 
  have "\<bar>s - 100 * q\<bar> \<le> \<bar>s - q' * 100\<bar> + \<bar>q' * 100 - 100 * q\<bar>" by linarith
  with e4 e5 have "\<bar>s - 100 * q\<bar> \<le> 200 * q / 2 ^ 53 + 100 * q / 2 ^ 53" by linarith
  also have "\<dots> \<le> 100 * q / 2 ^ 51" using q by simp
  finally show ?thesis by (simp add: s_def q'_def)
qed

section \<open>Grading\<close>

lemma gradedAnswers_Inr:
  "gradedAnswers t as c = Inr (gs, c') \<Longrightarrow>
     map (grade_answer t) as = map Inr gs \<and> c' = c + length (filter g_correct gs)"
proof (induction as arbitrary: c gs c')
  case Nil
  then show ?case by simp
next
  case (Cons a as)
  from Cons.prems obtain g where g: "grade_answer t a = Inr g"
    by (auto split: sum.splits)
  with Cons.prems obtain gs' where gs':
    "gradedAnswers t as (if g_correct g then c + 1 else c) = Inr (gs', c')" "gs = g # gs'"
    by (auto split: sum.splits)
  from Cons.IH[OF gs'(1)] g gs'(2) show ?case by auto
qed

lemma gradedAnswers_total:
  "\<forall>a\<in>set as. \<exists>g. grade_answer t a = Inr g \<Longrightarrow> \<exists>gs c'. gradedAnswers t as c = Inr (gs, c')"
proof (induction as arbitrary: c)
  case Nil
  then show ?case by simp
next
  case (Cons a as)
  from Cons.prems obtain g where g: "grade_answer t a = Inr g" by auto
  from Cons.prems have "\<forall>a\<in>set as. \<exists>g. grade_answer t a = Inr g" by simp
  from Cons.IH[OF this, of "if g_correct g then c + 1 else c"] g show ?case by auto
qed

lemma gradedAnswers_Inl:
  "gradedAnswers t as c = Inl e \<Longrightarrow> \<exists>a\<in>set as. grade_answer t a = Inl e"
proof (induction as arbitrary: c)
  case Nil
  then show ?case by simp
next
  case (Cons a as)
  then show ?case by (auto split: sum.splits)
qed

lemma grade_question_error: "grade_question q a = Inl e \<Longrightarrow> e = TypeError"
  by (auto simp: grade_question_def Let_def split: if_splits option.splits)

lemma grade_answer_error: "grade_answer t a = Inl e \<Longrightarrow> e = TypeError"
  by (auto simp: grade_answer_def split: option.splits sum.splits dest: grade_question_error)

lemma find_o_correct: "(find o_correct options = None) = (\<not> list_ex o_correct options)"
  by (induction options) auto

lemma find_o_correct_Some: "find o_correct options = Some c \<Longrightarrow> list_ex o_correct options"
  by (induction options) (auto split: if_splits)

lemma grade_question_gradable:
  "(\<exists>c. grade_question q a = Inr c) \<longleftrightarrow> gradable q a"
proof -
  consider (mc) "q_type q = ''multiple-choice''" | (ma) "q_type q = ''multiple-answer''"
    | (tx) "q_type q = ''text''"
    | (other) "q_type q \<noteq> ''multiple-choice''" "q_type q \<noteq> ''multiple-answer''"
        "q_type q \<noteq> ''text''"
    by blast
  then show ?thesis
  proof cases
    case mc
    then show ?thesis
      by (auto simp: grade_question_def gradable_def stated_precondition_def find_o_correct
          split: option.splits dest: find_o_correct_Some)
  next
    case ma
    then show ?thesis
      by (auto simp: grade_question_def gradable_def stated_precondition_def Let_def
          split: option.splits)
  next
    case tx
    then show ?thesis
      by (auto simp: grade_question_def gradable_def stated_precondition_def
          split: option.splits)
  next
    case other
    then show ?thesis
      by (auto simp: grade_question_def gradable_def stated_precondition_def)
  qed
qed

lemma grade_answer_gradable:
  "(\<exists>g. grade_answer t a = Inr g) \<longleftrightarrow> answer_gradable t a"
proof (cases "find (\<lambda>q. q_id q = a_questionId a) (t_questions t)")
  case None
  then show ?thesis by (simp add: grade_answer_def answer_gradable_def)
next
  case (Some q)
  show ?thesis
  proof (cases "grade_question q a")
    case (Inl e)
    with Some grade_question_gradable[of q a] show ?thesis
      by (simp add: grade_answer_def answer_gradable_def)
  next
    case (Inr c)
    with Some grade_question_gradable[of q a] show ?thesis
      by (auto simp add: grade_answer_def answer_gradable_def)
  qed
qed

lemma unmatched_not_correct:
  assumes "map (grade_answer t) as = map Inr gs"
    and "i < length as"
    and "find (\<lambda>q. q_id q = a_questionId (as ! i)) (t_questions t) = None"
  shows "gs ! i = \<lparr>g_answer = as ! i, g_correct = False\<rparr>"
proof -
  from assms(1) have len: "length gs = length as"
    by (metis length_map)
  from assms(1) have "map (grade_answer t) as ! i = map Inr gs ! i" by simp
  with assms(2) len have "grade_answer t (as ! i) = Inr (gs ! i)" by simp
  with assms(3) show ?thesis by (simp add: grade_answer_def)
qed

lemma graded_answers_kept:
  "map (grade_answer t) as = map Inr gs \<Longrightarrow> map g_answer gs = as"
proof (induction as arbitrary: gs)
  case Nil
  then show ?case by simp
next
  case (Cons a as)
  then obtain g gs' where gs: "gs = g # gs'" by (cases gs) auto
  with Cons.prems have g: "grade_answer t a = Inr g"
    and rest: "map (grade_answer t) as = map Inr gs'" by simp_all
  from g have "g_answer g = a"
    by (auto simp: grade_answer_def split: option.splits sum.splits)
  with Cons.IH[OF rest] gs show ?case by simp
qed

lemma no_questions_none_correct:
  "t_questions t = [] \<Longrightarrow> map (grade_answer t) as = map Inr gs \<Longrightarrow> filter g_correct gs = []"
proof (induction as arbitrary: gs)
  case Nil
  then show ?case by simp
next
  case (Cons a as)
  then obtain g gs' where gs: "gs = g # gs'" by (cases gs) auto
  with Cons.prems have g: "grade_answer t a = Inr g"
    and rest: "map (grade_answer t) as = map Inr gs'" by simp_all
  from g Cons.prems(1) have "\<not> g_correct g" by (auto simp: grade_answer_def)
  with Cons.IH[OF Cons.prems(1) rest] gs show ?case by simp
qed

lemma Grade_Inr:
  assumes "Grade uuid now userId testId test answers = Inr r"
  shows "\<exists>gs. map (grade_answer test) answers = map Inr gs \<and>
           r = \<lparr>r_id = uuid, r_testId = testId, r_userId = userId, r_answers = gs,
                r_score = js_times (js_div (length (filter g_correct gs))
                                     (length (t_questions test))) 100,
                r_correctCount = length (filter g_correct gs),
                r_totalQuestions = length (t_questions test),
                r_submittedAt = now\<rparr>"
proof -
  from assms obtain gs c where run: "gradedAnswers test answers 0 = Inr (gs, c)"
    by (auto simp: Grade_def split: sum.splits)
  from gradedAnswers_Inr[OF run] have gs: "map (grade_answer test) answers = map Inr gs"
    and c: "c = length (filter g_correct gs)" by simp_all
  from assms run c have "r = \<lparr>r_id = uuid, r_testId = testId, r_userId = userId, r_answers = gs,
                r_score = js_times (js_div (length (filter g_correct gs))
                                     (length (t_questions test))) 100,
                r_correctCount = length (filter g_correct gs),
                r_totalQuestions = length (t_questions test),
                r_submittedAt = now\<rparr>"
    by (simp add: Grade_def)
  with gs show ?thesis by blast
qed


lemma round_double_one: "round_double 1 = 1"
  using round_double_small_int[of 1] by simp

lemma round_double_hundred: "round_double 100 = 100"
  using round_double_small_int[of 100] by simp

lemma round_double_fifty: "round_double 50 = 50"
  using round_double_small_int[of 50] by simp

text \<open>
  The score of one correct answer on a test of three questions: \<open>1 / 3\<close> rounds to
  \<open>6004799503160661 / 2^54\<close>, and its product with 100 rounds to
  \<open>4691249611844266 / 2^47\<close>, the double that prints as \<open>33.33333333333333\<close>.
\<close>

lemma round_double_third: "round_double (1 / 3) = 6004799503160661 / 2 ^ 54"
proof -
  have p: "(2::real) powr (of_int (- 2) - 52) = 1 / 2 ^ 54"
  proof -
    have "(2::real) powr (of_int (- 2) - 52) = 2 powr (- 54)" by simp
    also have "\<dots> = 1 / 2 powr 54" by (rule powr_minus_divide)
    finally show ?thesis by simp
  qed
  have "round_double (1 / 3) =
      of_int (round_ties_even ((1 / 3) / 2 powr (of_int (- 2) - 52))) * 2 powr (of_int (- 2) - 52)"
    by (rule round_double_at) (simp_all add: powr_minus_divide)
  moreover have "round_ties_even ((1 / 3) / (1 / 2 ^ 54)) = 6004799503160661"
    by (rule rte_floor) simp_all
  ultimately show ?thesis unfolding p by simp
qed

lemma round_double_third_hundred:
  "round_double (6004799503160661 / 2 ^ 54 * 100) = 4691249611844266 / 2 ^ 47"
proof -
  have p: "(2::real) powr (of_int 5 - 52) = 1 / 2 ^ 47"
  proof -
    have "(2::real) powr (of_int 5 - 52) = 2 powr (- 47)" by simp
    also have "\<dots> = 1 / 2 powr 47" by (rule powr_minus_divide)
    finally show ?thesis by simp
  qed
  have "round_double (6004799503160661 / 2 ^ 54 * 100) =
      of_int (round_ties_even ((6004799503160661 / 2 ^ 54 * 100) / 2 powr (of_int 5 - 52))) *
        2 powr (of_int 5 - 52)"
    by (rule round_double_at) simp_all
  moreover have "round_ties_even ((6004799503160661 / 2 ^ 54 * 100) / (1 / 2 ^ 47)) =
      4691249611844266"
    by (rule rte_floor) simp_all
  ultimately show ?thesis unfolding p by simp
qed

lemma score_third:
  "c = 1 \<Longrightarrow> n = 3 \<Longrightarrow>
     js_times (js_div c n) 100 = Num (2345624805922133 / 70368744177664)"
proof -
  assume "c = 1" "n = 3"
  then have "js_times (js_div c n) 100 =
      Num (round_double (round_double (1 / 3) * 100))"
    by (simp add: js_div_def)
  then show ?thesis
    by (simp only: round_double_third round_double_third_hundred) simp
qed

lemma score_half: "c = 1 \<Longrightarrow> n = 2 \<Longrightarrow> js_times (js_div c n) 100 = Num 50"
  by (simp add: js_div_def round_double_half round_double_fifty)

text \<open>
  C3 (as amended). An answer whose question id matches no question of the test is
  graded \<open>correct = false\<close> by the callback, which returns normally. Whenever the
  handler builds a result, \<open>totalQuestions\<close> is the number of questions of the test,
  every submitted answer is recorded in its place, \<open>correctCount\<close> is the number of
  recorded answers flagged correct, and the unmatched answers are recorded with
  \<open>correct = false\<close>. The score is \<open>NaN\<close>, the value of \<open>0 / 0\<close>, for a test without
  questions. Otherwise it is the double that \<open>(correctCount / totalQuestions) * 100\<close>
  yields with both operations rounded: it differs from
  \<open>100 * correctCount / totalQuestions\<close> by at most that value divided by \<open>2^51\<close>, and
  it is exactly 0 when no answer is correct and exactly 100 when \<open>correctCount\<close> equals
  \<open>totalQuestions\<close>. A submission of unmatched answers only always yields a result.
\<close>

theorem Grade_score:
  "(find (\<lambda>q. q_id q = a_questionId a) (t_questions test) = None \<longrightarrow>
      grade_answer test a = Inr \<lparr>g_answer = a, g_correct = False\<rparr>) \<and>
   (Grade uuid now userId testId test answers = Inr r \<longrightarrow>
      r_totalQuestions r = length (t_questions test) \<and>
      map g_answer (r_answers r) = answers \<and>
      r_correctCount r = length (filter g_correct (r_answers r)) \<and>
      (t_questions test = [] \<longrightarrow> r_score r = NaN) \<and>
      (t_questions test \<noteq> [] \<longrightarrow>
         r_score r =
           Num (round_double
                 (round_double (real (r_correctCount r) / real (r_totalQuestions r)) * 100)) \<and>
         \<bar>round_double
             (round_double (real (r_correctCount r) / real (r_totalQuestions r)) * 100) -
           100 * real (r_correctCount r) / real (r_totalQuestions r)\<bar>
           \<le> 100 * real (r_correctCount r) / real (r_totalQuestions r) / 2 ^ 51 \<and>
         (r_correctCount r = 0 \<longrightarrow> r_score r = Num 0) \<and>
         (r_correctCount r = r_totalQuestions r \<longrightarrow> r_score r = Num 100)) \<and>
      (\<forall>i<length answers.
         find (\<lambda>q. q_id q = a_questionId (answers ! i)) (t_questions test) = None \<longrightarrow>
         r_answers r ! i = \<lparr>g_answer = answers ! i, g_correct = False\<rparr>)) \<and>
   (list_all (\<lambda>a. find (\<lambda>q. q_id q = a_questionId a) (t_questions test) = None) answers \<longrightarrow>
      (\<exists>r. Grade uuid now userId testId test answers = Inr r))"
proof (intro conjI impI)
  assume "find (\<lambda>q. q_id q = a_questionId a) (t_questions test) = None"
  then show "grade_answer test a = Inr \<lparr>g_answer = a, g_correct = False\<rparr>"
    by (simp add: grade_answer_def)
next
  assume "list_all (\<lambda>a. find (\<lambda>q. q_id q = a_questionId a) (t_questions test) = None) answers"
  then have "\<forall>a\<in>set answers. \<exists>g. grade_answer test a = Inr g"
    by (simp add: list_all_iff grade_answer_def)
  from gradedAnswers_total[OF this, of 0] obtain gs c
    where "gradedAnswers test answers 0 = Inr (gs, c)" by blast
  then show "\<exists>r. Grade uuid now userId testId test answers = Inr r"
    by (simp add: Grade_def)
next
  assume run: "Grade uuid now userId testId test answers = Inr r"
  from Grade_Inr[OF run] obtain gs where gs: "map (grade_answer test) answers = map Inr gs"
    and r: "r = \<lparr>r_id = uuid, r_testId = testId, r_userId = userId, r_answers = gs,
                r_score = js_times (js_div (length (filter g_correct gs))
                                     (length (t_questions test))) 100,
                r_correctCount = length (filter g_correct gs),
                r_totalQuestions = length (t_questions test),
                r_submittedAt = now\<rparr>" by blast
  show "r_totalQuestions r = length (t_questions test)" by (simp add: r)
  show "map g_answer (r_answers r) = answers"
    using graded_answers_kept[OF gs] by (simp add: r)
  show "r_correctCount r = length (filter g_correct (r_answers r))" by (simp add: r)
  show "r_score r = NaN" if "t_questions test = []"
    using no_questions_none_correct[OF that gs] that by (simp add: r js_div_def)
  show "\<forall>i<length answers.
         find (\<lambda>q. q_id q = a_questionId (answers ! i)) (t_questions test) = None \<longrightarrow>
         r_answers r ! i = \<lparr>g_answer = answers ! i, g_correct = False\<rparr>"
    using unmatched_not_correct[OF gs] by (simp add: r)
  assume ne: "t_questions test \<noteq> []"
  show score: "r_score r =
           Num (round_double
                 (round_double (real (r_correctCount r) / real (r_totalQuestions r)) * 100))"
    using ne by (simp add: r js_div_def)
  have "0 \<le> real (r_correctCount r) / real (r_totalQuestions r)" by simp
  from double_score_error[OF this]
  show "\<bar>round_double
             (round_double (real (r_correctCount r) / real (r_totalQuestions r)) * 100) -
           100 * real (r_correctCount r) / real (r_totalQuestions r)\<bar>
           \<le> 100 * real (r_correctCount r) / real (r_totalQuestions r) / 2 ^ 51"
    by simp
  show "r_score r = Num 0" if "r_correctCount r = 0"
    using that by (simp add: score round_double_def)
  show "r_score r = Num 100" if "r_correctCount r = r_totalQuestions r"
  proof -
    have "0 < r_totalQuestions r" using ne by (simp add: r)
    with that have "real (r_correctCount r) / real (r_totalQuestions r) = 1" by simp
    then show ?thesis by (simp add: score round_double_one round_double_hundred)
  qed
qed


theorem Grade_score_witness:
  "grade_answer
     \<lparr>t_id = ''T1'', t_questions =
        [\<lparr>q_id = ''q1'', q_type = ''multiple-choice'',
          q_options = Some [\<lparr>o_id = ''A'', o_text = ''yes'', o_correct = True\<rparr>,
                            \<lparr>o_id = ''B'', o_text = ''no'', o_correct = False\<rparr>],
          q_correctAnswer = None\<rparr>,
         \<lparr>q_id = ''q2'', q_type = ''text'', q_options = None,
          q_correctAnswer = Some ''Paris''\<rparr>]\<rparr>
     \<lparr>a_questionId = ''zz'', a_optionId = Some ''A'', a_selectedOptions = None,
       a_text = None\<rparr>
   = Inr \<lparr>g_answer = \<lparr>a_questionId = ''zz'', a_optionId = Some ''A'', a_selectedOptions = None,
       a_text = None\<rparr>,
          g_correct = False\<rparr> \<and>
   Grade ''R1'' 5000 ''U1'' ''T1''
     \<lparr>t_id = ''T1'', t_questions =
        [\<lparr>q_id = ''q1'', q_type = ''multiple-choice'',
          q_options = Some [\<lparr>o_id = ''A'', o_text = ''yes'', o_correct = True\<rparr>,
                            \<lparr>o_id = ''B'', o_text = ''no'', o_correct = False\<rparr>],
          q_correctAnswer = None\<rparr>,
         \<lparr>q_id = ''q2'', q_type = ''text'', q_options = None,
          q_correctAnswer = Some ''Paris''\<rparr>]\<rparr>
     [\<lparr>a_questionId = ''q1'', a_optionId = Some ''A'', a_selectedOptions = None,
       a_text = None\<rparr>,
      \<lparr>a_questionId = ''zz'', a_optionId = Some ''A'', a_selectedOptions = None,
       a_text = None\<rparr>]
   = Inr \<lparr>r_id = ''R1'', r_testId = ''T1'', r_userId = ''U1'',
          r_answers =
            [\<lparr>g_answer = \<lparr>a_questionId = ''q1'', a_optionId = Some ''A'', a_selectedOptions = None,
       a_text = None\<rparr>,
              g_correct = True\<rparr>,
             \<lparr>g_answer = \<lparr>a_questionId = ''zz'', a_optionId = Some ''A'', a_selectedOptions = None,
       a_text = None\<rparr>,
              g_correct = False\<rparr>],
          r_score = Num 50, r_correctCount = 1, r_totalQuestions = 2,
          r_submittedAt = 5000\<rparr> \<and>
   r_score \<lparr>r_id = ''R1'', r_testId = ''T1'', r_userId = ''U1'',
          r_answers =
            [\<lparr>g_answer = \<lparr>a_questionId = ''q1'', a_optionId = Some ''A'', a_selectedOptions = None,
       a_text = None\<rparr>,
              g_correct = True\<rparr>,
             \<lparr>g_answer = \<lparr>a_questionId = ''zz'', a_optionId = Some ''A'', a_selectedOptions = None,
       a_text = None\<rparr>,
              g_correct = False\<rparr>],
          r_score = Num 50, r_correctCount = 1, r_totalQuestions = 2,
          r_submittedAt = 5000\<rparr> = Num 50 \<and>
   r_totalQuestions \<lparr>r_id = ''R1'', r_testId = ''T1'', r_userId = ''U1'',
          r_answers =
            [\<lparr>g_answer = \<lparr>a_questionId = ''q1'', a_optionId = Some ''A'', a_selectedOptions = None,
       a_text = None\<rparr>,
              g_correct = True\<rparr>,
             \<lparr>g_answer = \<lparr>a_questionId = ''zz'', a_optionId = Some ''A'', a_selectedOptions = None,
       a_text = None\<rparr>,
              g_correct = False\<rparr>],
          r_score = Num 50, r_correctCount = 1, r_totalQuestions = 2,
          r_submittedAt = 5000\<rparr> = length (t_questions \<lparr>t_id = ''T1'', t_questions =
        [\<lparr>q_id = ''q1'', q_type = ''multiple-choice'',
          q_options = Some [\<lparr>o_id = ''A'', o_text = ''yes'', o_correct = True\<rparr>,
                            \<lparr>o_id = ''B'', o_text = ''no'', o_correct = False\<rparr>],
          q_correctAnswer = None\<rparr>,
         \<lparr>q_id = ''q2'', q_type = ''text'', q_options = None,
          q_correctAnswer = Some ''Paris''\<rparr>]\<rparr>) \<and>
   (\<exists>r. Grade ''R2'' 6000 ''U1'' ''T1''
     \<lparr>t_id = ''T1'', t_questions =
        [\<lparr>q_id = ''q1'', q_type = ''multiple-choice'',
          q_options = Some [\<lparr>o_id = ''A'', o_text = ''yes'', o_correct = True\<rparr>,
                            \<lparr>o_id = ''B'', o_text = ''no'', o_correct = False\<rparr>],
          q_correctAnswer = None\<rparr>,
         \<lparr>q_id = ''q2'', q_type = ''text'', q_options = None,
          q_correctAnswer = Some ''Paris''\<rparr>]\<rparr>
     [\<lparr>a_questionId = ''zz'', a_optionId = Some ''A'', a_selectedOptions = None,
       a_text = None\<rparr>]
   = Inr r) \<and>
   (\<exists>r. Grade ''R3'' 7000 ''U1'' ''T0'' \<lparr>t_id = ''T0'', t_questions = []\<rparr>
     [\<lparr>a_questionId = ''zz'', a_optionId = Some ''A'', a_selectedOptions = None,
       a_text = None\<rparr>]
   = Inr r \<and> r_score r = NaN)"
proof -
  let ?t = "\<lparr>t_id = ''T1'', t_questions =
        [\<lparr>q_id = ''q1'', q_type = ''multiple-choice'',
          q_options = Some [\<lparr>o_id = ''A'', o_text = ''yes'', o_correct = True\<rparr>,
                            \<lparr>o_id = ''B'', o_text = ''no'', o_correct = False\<rparr>],
          q_correctAnswer = None\<rparr>,
         \<lparr>q_id = ''q2'', q_type = ''text'', q_options = None,
          q_correctAnswer = Some ''Paris''\<rparr>]\<rparr>"
  let ?a1 = "\<lparr>a_questionId = ''q1'', a_optionId = Some ''A'', a_selectedOptions = None,
       a_text = None\<rparr>"
  let ?a2 = "\<lparr>a_questionId = ''zz'', a_optionId = Some ''A'', a_selectedOptions = None,
       a_text = None\<rparr>"
  let ?r = "\<lparr>r_id = ''R1'', r_testId = ''T1'', r_userId = ''U1'',
          r_answers =
            [\<lparr>g_answer = \<lparr>a_questionId = ''q1'', a_optionId = Some ''A'', a_selectedOptions = None,
       a_text = None\<rparr>,
              g_correct = True\<rparr>,
             \<lparr>g_answer = \<lparr>a_questionId = ''zz'', a_optionId = Some ''A'', a_selectedOptions = None,
       a_text = None\<rparr>,
              g_correct = False\<rparr>],
          r_score = Num 50, r_correctCount = 1, r_totalQuestions = 2,
          r_submittedAt = 5000\<rparr>"
  have none: "find (\<lambda>q. q_id q = a_questionId ?a2) (t_questions ?t) = None" by simp
  have run: "Grade ''R1'' 5000 ''U1'' ''T1'' ?t [?a1, ?a2] = Inr ?r"
    by (simp add: Grade_def grade_answer_def grade_question_def score_half)
  note th = Grade_score[of ?a2 ?t "''R1''" 5000 "''U1''" "''T1''" "[?a1, ?a2]" ?r]
  from th none have unmatched: "grade_answer ?t ?a2 = Inr \<lparr>g_answer = ?a2, g_correct = False\<rparr>"
    by blast
  from th run have total: "r_totalQuestions ?r = length (t_questions ?t)"
    by blast
  have "t_questions ?t \<noteq> []" by simp
  with th run have "r_score ?r =
      Num (round_double (round_double (real (r_correctCount ?r) / real (r_totalQuestions ?r)) * 100))"
    by blast
  then have score: "r_score ?r = Num 50" by simp
  have only: "list_all (\<lambda>a. find (\<lambda>q. q_id q = a_questionId a) (t_questions ?t) = None) [?a2]"
    by simp
  from Grade_score[of ?a2 ?t "''R2''" 6000 "''U1''" "''T1''" "[?a2]"] only
  have alone: "\<exists>r. Grade ''R2'' 6000 ''U1'' ''T1'' ?t [?a2] = Inr r"
    by blast
  let ?e = "\<lparr>t_id = ''T0'', t_questions = []\<rparr>"
  have "list_all (\<lambda>a. find (\<lambda>q. q_id q = a_questionId a) (t_questions ?e) = None) [?a2]"
    by simp
  with Grade_score[of ?a2 ?e "''R3''" 7000 "''U1''" "''T0''" "[?a2]"]
  obtain r0 where r0: "Grade ''R3'' 7000 ''U1'' ''T0'' ?e [?a2] = Inr r0" by blast
  have "t_questions ?e = []" by simp
  with Grade_score[of ?a2 ?e "''R3''" 7000 "''U1''" "''T0''" "[?a2]" r0] r0
  have "r_score r0 = NaN" by blast
  with r0 have empty: "\<exists>r. Grade ''R3'' 7000 ''U1'' ''T0'' ?e [?a2] = Inr r \<and> r_score r = NaN"
    by blast
  from unmatched run score total alone empty show ?thesis by blast
qed

text \<open>
  C3 as stated fails: the score is computed in doubles. One correct answer on a test of
  three questions is scored \<open>2345624805922133 / 2^46\<close>, printed
  \<open>33.33333333333333\<close>, which is not \<open>100 * 1 / 3\<close>.
\<close>

theorem Grade_score_rounding_counterexample:
  "Grade ''R1'' 5000 ''U1'' ''T1''
     \<lparr>t_id = ''T1'', t_questions =
        [\<lparr>q_id = ''q1'', q_type = ''text'', q_options = None,
          q_correctAnswer = Some ''Paris''\<rparr>,
         \<lparr>q_id = ''q2'', q_type = ''text'', q_options = None,
          q_correctAnswer = Some ''Rome''\<rparr>,
         \<lparr>q_id = ''q3'', q_type = ''text'', q_options = None,
          q_correctAnswer = Some ''Oslo''\<rparr>]\<rparr>
     [\<lparr>a_questionId = ''q1'', a_optionId = None, a_selectedOptions = None,
       a_text = Some ''paris''\<rparr>]
   = Inr \<lparr>r_id = ''R1'', r_testId = ''T1'', r_userId = ''U1'',
          r_answers =
            [\<lparr>g_answer = \<lparr>a_questionId = ''q1'', a_optionId = None, a_selectedOptions = None,
       a_text = Some ''paris''\<rparr>,
              g_correct = True\<rparr>],
          r_score = Num (2345624805922133 / 70368744177664),
          r_correctCount = 1, r_totalQuestions = 3, r_submittedAt = 5000\<rparr> \<and>
   Num (2345624805922133 / 70368744177664) \<noteq> Num (100 * real 1 / real 3)"
proof -
  have l: "toLowerCase (trim ''paris'') = ''paris''" "toLowerCase (trim ''Paris'') = ''paris''"
    by code_simp+
  show ?thesis
    by (simp add: Grade_def grade_answer_def grade_question_def score_third l)
qed



text \<open>
  C4 (as amended). For a multiple-answer question with options and an answer carrying
  an array of selected options, the answer is graded correct if and only if every id
  of an option flagged correct is selected and no selected id is the id of an option
  not flagged correct. Selected ids that name no option of the question are ignored;
  when every selected id is the id of an option and no id is shared by a correct and
  an incorrect option, the answer is correct if and only if the selected set equals
  the set of correct ids. An empty selection is correct if and only if no option is
  flagged correct.
\<close>

theorem multiple_answer_grading:
  assumes "find (\<lambda>q. q_id q = a_questionId a) (t_questions test) = Some q"
    and "q_type q = ''multiple-answer''"
    and "q_options q = Some options"
    and "a_selectedOptions a = Some selected"
  shows "grade_answer test a =
           Inr \<lparr>g_answer = a,
                g_correct = (set (correct_ids options) \<subseteq> set selected \<and>
                             set selected \<inter> set (incorrect_ids options) = {})\<rparr> \<and>
         (set selected \<subseteq> set (map o_id options) \<and>
          set (correct_ids options) \<inter> set (incorrect_ids options) = {} \<longrightarrow>
            grade_answer test a =
              Inr \<lparr>g_answer = a, g_correct = (set selected = set (correct_ids options))\<rparr>) \<and>
         (selected = [] \<longrightarrow>
            grade_answer test a = Inr \<lparr>g_answer = a, g_correct = (correct_ids options = [])\<rparr>)"
proof -
  have main: "grade_answer test a =
           Inr \<lparr>g_answer = a,
                g_correct = (set (correct_ids options) \<subseteq> set selected \<and>
                             set selected \<inter> set (incorrect_ids options) = {})\<rparr>"
    using assms
    by (auto simp: grade_answer_def grade_question_def Let_def correct_ids_def
        incorrect_ids_def list_all_iff list_ex_iff)
  have ids: "set (map o_id options) = set (correct_ids options) \<union> set (incorrect_ids options)"
    by (auto simp: correct_ids_def incorrect_ids_def)
  have eq: "(set (correct_ids options) \<subseteq> set selected \<and>
             set selected \<inter> set (incorrect_ids options) = {}) =
            (set selected = set (correct_ids options))"
    if "set selected \<subseteq> set (map o_id options)"
      and "set (correct_ids options) \<inter> set (incorrect_ids options) = {}"
    using that unfolding ids by blast
  have empty: "(set (correct_ids options) \<subseteq> set selected \<and>
             set selected \<inter> set (incorrect_ids options) = {}) = (correct_ids options = [])"
    if "selected = []"
    using that by simp
  from main eq empty show ?thesis by simp
qed


theorem multiple_answer_grading_witness:
  "grade_answer
     \<lparr>t_id = ''T1'', t_questions =
       [\<lparr>q_id = ''q1'', q_type = ''multiple-answer'',
         q_options = Some
          [\<lparr>o_id = ''A'', o_text = ''a'', o_correct = True\<rparr>,
           \<lparr>o_id = ''B'', o_text = ''b'', o_correct = True\<rparr>,
           \<lparr>o_id = ''C'', o_text = ''c'', o_correct = False\<rparr>],
         q_correctAnswer = None\<rparr>]\<rparr>
     \<lparr>a_questionId = ''q1'', a_optionId = None,
      a_selectedOptions = Some [''A'', ''B''], a_text = None\<rparr>
   = Inr \<lparr>g_answer = \<lparr>a_questionId = ''q1'', a_optionId = None,
      a_selectedOptions = Some [''A'', ''B''], a_text = None\<rparr>,
          g_correct = True\<rparr> \<and>
   grade_answer
     \<lparr>t_id = ''T1'', t_questions =
       [\<lparr>q_id = ''q1'', q_type = ''multiple-answer'',
         q_options = Some
          [\<lparr>o_id = ''A'', o_text = ''a'', o_correct = True\<rparr>,
           \<lparr>o_id = ''B'', o_text = ''b'', o_correct = True\<rparr>,
           \<lparr>o_id = ''C'', o_text = ''c'', o_correct = False\<rparr>],
         q_correctAnswer = None\<rparr>]\<rparr>
     \<lparr>a_questionId = ''q1'', a_optionId = None,
      a_selectedOptions = Some [''A''], a_text = None\<rparr>
   = Inr \<lparr>g_answer = \<lparr>a_questionId = ''q1'', a_optionId = None,
      a_selectedOptions = Some [''A''], a_text = None\<rparr>,
          g_correct = False\<rparr> \<and>
   grade_answer
     \<lparr>t_id = ''T1'', t_questions =
       [\<lparr>q_id = ''q1'', q_type = ''multiple-answer'',
         q_options = Some
          [\<lparr>o_id = ''A'', o_text = ''a'', o_correct = True\<rparr>,
           \<lparr>o_id = ''B'', o_text = ''b'', o_correct = True\<rparr>,
           \<lparr>o_id = ''C'', o_text = ''c'', o_correct = False\<rparr>],
         q_correctAnswer = None\<rparr>]\<rparr>
     \<lparr>a_questionId = ''q1'', a_optionId = None,
      a_selectedOptions = Some [''A'', ''B'', ''C''], a_text = None\<rparr>
   = Inr \<lparr>g_answer = \<lparr>a_questionId = ''q1'', a_optionId = None,
      a_selectedOptions = Some [''A'', ''B'', ''C''], a_text = None\<rparr>,
          g_correct = False\<rparr> \<and>
   grade_answer
     \<lparr>t_id = ''T1'', t_questions =
       [\<lparr>q_id = ''q1'', q_type = ''multiple-answer'',
         q_options = Some
          [\<lparr>o_id = ''A'', o_text = ''a'', o_correct = True\<rparr>,
           \<lparr>o_id = ''B'', o_text = ''b'', o_correct = True\<rparr>,
           \<lparr>o_id = ''C'', o_text = ''c'', o_correct = False\<rparr>],
         q_correctAnswer = None\<rparr>]\<rparr>
     \<lparr>a_questionId = ''q1'', a_optionId = None,
      a_selectedOptions = Some [], a_text = None\<rparr>
   = Inr \<lparr>g_answer = \<lparr>a_questionId = ''q1'', a_optionId = None,
      a_selectedOptions = Some [], a_text = None\<rparr>,
          g_correct = False\<rparr>"
proof -
  let ?options = "[\<lparr>o_id = ''A'', o_text = ''a'', o_correct = True\<rparr>,
           \<lparr>o_id = ''B'', o_text = ''b'', o_correct = True\<rparr>,
           \<lparr>o_id = ''C'', o_text = ''c'', o_correct = False\<rparr>]"
  let ?q = "\<lparr>q_id = ''q1'', q_type = ''multiple-answer'', q_options = Some ?options,
         q_correctAnswer = None\<rparr>"
  let ?t = "\<lparr>t_id = ''T1'', t_questions = [?q]\<rparr>"
  have ty: "q_type ?q = ''multiple-answer''" and os: "q_options ?q = Some ?options"
    by simp_all
  have c: "correct_ids ?options = [''A'', ''B'']" and i: "incorrect_ids ?options = [''C'']"
    by (simp_all add: correct_ids_def incorrect_ids_def)
  have f: "find (\<lambda>q. q_id q = a_questionId a) (t_questions ?t) = Some ?q"
    if "a_questionId a = ''q1''" for a :: answer
    using that by simp
  have 1: "grade_answer ?t \<lparr>a_questionId = ''q1'', a_optionId = None,
      a_selectedOptions = Some [''A'', ''B''], a_text = None\<rparr> = Inr \<lparr>g_answer = \<lparr>a_questionId = ''q1'', a_optionId = None,
      a_selectedOptions = Some [''A'', ''B''], a_text = None\<rparr>,
          g_correct = True\<rparr>"
    using multiple_answer_grading[OF f ty os, of "\<lparr>a_questionId = ''q1'', a_optionId = None,
      a_selectedOptions = Some [''A'', ''B''], a_text = None\<rparr>" "[''A'', ''B'']"]
    unfolding c i by simp
  have 2: "grade_answer ?t \<lparr>a_questionId = ''q1'', a_optionId = None,
      a_selectedOptions = Some [''A''], a_text = None\<rparr> = Inr \<lparr>g_answer = \<lparr>a_questionId = ''q1'', a_optionId = None,
      a_selectedOptions = Some [''A''], a_text = None\<rparr>,
          g_correct = False\<rparr>"
    using multiple_answer_grading[OF f ty os, of "\<lparr>a_questionId = ''q1'', a_optionId = None,
      a_selectedOptions = Some [''A''], a_text = None\<rparr>" "[''A'']"]
    unfolding c i by simp
  have 3: "grade_answer ?t \<lparr>a_questionId = ''q1'', a_optionId = None,
      a_selectedOptions = Some [''A'', ''B'', ''C''], a_text = None\<rparr> = Inr \<lparr>g_answer = \<lparr>a_questionId = ''q1'', a_optionId = None,
      a_selectedOptions = Some [''A'', ''B'', ''C''], a_text = None\<rparr>,
          g_correct = False\<rparr>"
    using multiple_answer_grading[OF f ty os, of "\<lparr>a_questionId = ''q1'', a_optionId = None,
      a_selectedOptions = Some [''A'', ''B'', ''C''], a_text = None\<rparr>" "[''A'', ''B'', ''C'']"]
    unfolding c i by simp
  have 4: "grade_answer ?t \<lparr>a_questionId = ''q1'', a_optionId = None,
      a_selectedOptions = Some [], a_text = None\<rparr> = Inr \<lparr>g_answer = \<lparr>a_questionId = ''q1'', a_optionId = None,
      a_selectedOptions = Some [], a_text = None\<rparr>,
          g_correct = False\<rparr>"
    using multiple_answer_grading[OF f ty os, of "\<lparr>a_questionId = ''q1'', a_optionId = None,
      a_selectedOptions = Some [], a_text = None\<rparr>" "[]"]
    unfolding c i by simp
  from 1 2 3 4 show ?thesis by blast
qed


text \<open>
  C4 as stated fails: with the correct options \<open>A\<close> and \<open>B\<close> and the incorrect option
  \<open>C\<close>, the selection \<open>A, B, Z\<close> is graded correct, although it is not the set of
  correct ids: \<open>Z\<close> is not among the incorrect options, which is all the handler
  tests.
\<close>

theorem multiple_answer_foreign_id_counterexample:
  "grade_answer
     \<lparr>t_id = ''T1'', t_questions =
       [\<lparr>q_id = ''q1'', q_type = ''multiple-answer'',
         q_options = Some
          [\<lparr>o_id = ''A'', o_text = ''a'', o_correct = True\<rparr>,
           \<lparr>o_id = ''B'', o_text = ''b'', o_correct = True\<rparr>,
           \<lparr>o_id = ''C'', o_text = ''c'', o_correct = False\<rparr>],
         q_correctAnswer = None\<rparr>]\<rparr>
     \<lparr>a_questionId = ''q1'', a_optionId = None,
      a_selectedOptions = Some [''A'', ''B'', ''Z''], a_text = None\<rparr>
   = Inr \<lparr>g_answer = \<lparr>a_questionId = ''q1'', a_optionId = None,
      a_selectedOptions = Some [''A'', ''B'', ''Z''], a_text = None\<rparr>,
          g_correct = True\<rparr> \<and>
   set [''A'', ''B'', ''Z''] \<noteq>
     set (correct_ids
          [\<lparr>o_id = ''A'', o_text = ''a'', o_correct = True\<rparr>,
           \<lparr>o_id = ''B'', o_text = ''b'', o_correct = True\<rparr>,
           \<lparr>o_id = ''C'', o_text = ''c'', o_correct = False\<rparr>])"
proof -
  let ?options = "[\<lparr>o_id = ''A'', o_text = ''a'', o_correct = True\<rparr>,
           \<lparr>o_id = ''B'', o_text = ''b'', o_correct = True\<rparr>,
           \<lparr>o_id = ''C'', o_text = ''c'', o_correct = False\<rparr>]"
  have "''Z'' \<in> set [''A'', ''B'', ''Z'']" by simp
  moreover have "''Z'' \<notin> set (correct_ids ?options)" by (simp add: correct_ids_def)
  ultimately have "set [''A'', ''B'', ''Z''] \<noteq> set (correct_ids ?options)" by blast
  then show ?thesis by (simp add: grade_answer_def grade_question_def)
qed


text \<open>
  Two properties of the string functions: \<open>trim\<close> ignores white space around its
  argument, and \<open>toLowerCase\<close> leaves a lower-cased string as it is.
\<close>

lemma dropWhile_all: "list_all p xs \<Longrightarrow> dropWhile p (xs @ ys) = dropWhile p ys"
  by (induction xs) simp_all

lemma dropWhile_keeps: "dropWhile p xs \<noteq> [] \<Longrightarrow> dropWhile p (xs @ ys) = dropWhile p xs @ ys"
  by (induction xs) (simp_all split: if_splits)

lemma dropWhile_empty: "dropWhile p xs = [] \<Longrightarrow> list_all p xs"
  by (induction xs) (simp_all split: if_splits)

lemma trim_surrounding:
  assumes l: "list_all isWhiteSpace l" and r: "list_all isWhiteSpace r"
  shows "trim (l @ s @ r) = trim s"
proof -
  have left: "dropWhile isWhiteSpace (l @ s @ r) = dropWhile isWhiteSpace (s @ r)"
    using l by (rule dropWhile_all)
  have rr: "list_all isWhiteSpace (rev r)" using r by (simp add: list_all_iff)
  show ?thesis
  proof (cases "dropWhile isWhiteSpace s = []")
    case True
    from dropWhile_empty[OF True] have "list_all isWhiteSpace (s @ r)" using r by simp
    then have "dropWhile isWhiteSpace (s @ r) = []" by (simp add: list_all_iff)
    with left have e: "dropWhile isWhiteSpace (l @ s @ r) = []" by simp
    show ?thesis by (simp only: trim_def e True)
  next
    case False
    from dropWhile_keeps[OF False]
    have "dropWhile isWhiteSpace (s @ r) = dropWhile isWhiteSpace s @ r" .
    with left have "rev (dropWhile isWhiteSpace (l @ s @ r)) =
        rev r @ rev (dropWhile isWhiteSpace s)" by simp
    with dropWhile_all[OF rr] show ?thesis by (simp add: trim_def)
  qed
qed

lemma toLowerChar_idem: "toLowerChar (toLowerChar c) = toLowerChar c"
proof -
  have n: "of_char c < (256 :: nat)" by simp
  show ?thesis
    using n unfolding toLowerChar_def Let_def
    by (auto simp: of_char_of [where ?'a = nat] simp del: of_char_of)
qed

lemma toLowerCase_idem: "toLowerCase (toLowerCase s) = toLowerCase s"
  by (simp add: toLowerCase_def toLowerChar_idem)

text \<open>
  C7. For a text question with a \<open>correctAnswer\<close> and an answer carrying a text, the
  answer is graded correct if and only if the text and the \<open>correctAnswer\<close> are equal
  after \<open>trim()\<close> and \<open>toLowerCase()\<close>.
\<close>

theorem text_grading:
  assumes "find (\<lambda>q. q_id q = a_questionId a) (t_questions test) = Some q"
    and "q_type q = ''text''"
    and "a_text a = Some text"
    and "q_correctAnswer q = Some correctAnswer"
  shows "grade_answer test a =
           Inr \<lparr>g_answer = a,
                g_correct = (toLowerCase (trim text) = toLowerCase (trim correctAnswer))\<rparr>"
  using assms by (simp add: grade_answer_def grade_question_def)


theorem text_grading_witness:
  "grade_answer
     \<lparr>t_id = ''T1'', t_questions =
       [\<lparr>q_id = ''q1'', q_type = ''text'', q_options = None,
         q_correctAnswer = Some ''Paris''\<rparr>]\<rparr>
     \<lparr>a_questionId = ''q1'', a_optionId = None, a_selectedOptions = None,
      a_text = Some '' paris ''\<rparr>
   = Inr \<lparr>g_answer = \<lparr>a_questionId = ''q1'', a_optionId = None, a_selectedOptions = None,
      a_text = Some '' paris ''\<rparr>,
          g_correct = True\<rparr> \<and>
   grade_answer
     \<lparr>t_id = ''T1'', t_questions =
       [\<lparr>q_id = ''q1'', q_type = ''text'', q_options = None,
         q_correctAnswer = Some ''Paris''\<rparr>]\<rparr>
     \<lparr>a_questionId = ''q1'', a_optionId = None, a_selectedOptions = None,
      a_text = Some ''Pariz''\<rparr>
   = Inr \<lparr>g_answer = \<lparr>a_questionId = ''q1'', a_optionId = None, a_selectedOptions = None,
      a_text = Some ''Pariz''\<rparr>,
          g_correct = False\<rparr>"
proof -
  let ?q = "\<lparr>q_id = ''q1'', q_type = ''text'', q_options = None,
         q_correctAnswer = Some ''Paris''\<rparr>"
  let ?t = "\<lparr>t_id = ''T1'', t_questions = [?q]\<rparr>"
  have ty: "q_type ?q = ''text''" and ca: "q_correctAnswer ?q = Some ''Paris''"
    by simp_all
  have f: "find (\<lambda>q. q_id q = a_questionId a) (t_questions ?t) = Some ?q"
    if "a_questionId a = ''q1''" for a :: answer
    using that by simp
  have l1: "toLowerCase (trim '' paris '') = ''paris''" by code_simp
  have l2: "toLowerCase (trim ''Paris'') = ''paris''" by code_simp
  have l3: "toLowerCase (trim ''Pariz'') = ''pariz''" by code_simp
  have 1: "grade_answer ?t \<lparr>a_questionId = ''q1'', a_optionId = None, a_selectedOptions = None,
      a_text = Some '' paris ''\<rparr> = Inr \<lparr>g_answer = \<lparr>a_questionId = ''q1'', a_optionId = None, a_selectedOptions = None,
      a_text = Some '' paris ''\<rparr>, g_correct = True\<rparr>"
    using text_grading[OF f ty _ ca, of "\<lparr>a_questionId = ''q1'', a_optionId = None, a_selectedOptions = None,
      a_text = Some '' paris ''\<rparr>" "'' paris ''"]
    unfolding l1 l2 by simp
  have 2: "grade_answer ?t \<lparr>a_questionId = ''q1'', a_optionId = None, a_selectedOptions = None,
      a_text = Some ''Pariz''\<rparr> = Inr \<lparr>g_answer = \<lparr>a_questionId = ''q1'', a_optionId = None, a_selectedOptions = None,
      a_text = Some ''Pariz''\<rparr>, g_correct = False\<rparr>"
    using text_grading[OF f ty _ ca, of "\<lparr>a_questionId = ''q1'', a_optionId = None, a_selectedOptions = None,
      a_text = Some ''Pariz''\<rparr>" "''Pariz''"]
    unfolding l2 l3 by simp
  from 1 2 show ?thesis by blast
qed

text \<open>
  C10 (as amended). Grading an answer matched to a multiple-choice question throws when
  no option of the question is flagged correct, and grading an answer matched to a
  text question throws when the answer has no text or the question no
  \<open>correctAnswer\<close>; an answer that throws aborts the submission. The handler builds a
  result if and only if every answer that matches a question is gradable: the two
  conditions above hold, and a multiple-answer question has options when the answer
  carries an array of selected options. Otherwise the submission aborts with a
  \<open>TypeError\<close>.
\<close>

theorem Grade_total_iff:
  "(find (\<lambda>q. q_id q = a_questionId a) (t_questions test) = Some q \<and>
    q_type q = ''multiple-choice'' \<and>
    (case q_options q of None \<Rightarrow> True | Some options \<Rightarrow> \<not> list_ex o_correct options) \<longrightarrow>
      grade_answer test a = Inl TypeError) \<and>
   (find (\<lambda>q. q_id q = a_questionId a) (t_questions test) = Some q \<and>
    q_type q = ''text'' \<and> (a_text a = None \<or> q_correctAnswer q = None) \<longrightarrow>
      grade_answer test a = Inl TypeError) \<and>
   (a \<in> set answers \<and> grade_answer test a = Inl TypeError \<longrightarrow>
      Grade uuid now userId testId test answers = Inl TypeError) \<and>
   (if list_all (answer_gradable test) answers
    then \<exists>r. Grade uuid now userId testId test answers = Inr r
    else Grade uuid now userId testId test answers = Inl TypeError)"
proof -
  have mc: "grade_answer test a = Inl TypeError"
    if "find (\<lambda>q. q_id q = a_questionId a) (t_questions test) = Some q"
      "q_type q = ''multiple-choice''"
      "case q_options q of None \<Rightarrow> True | Some options \<Rightarrow> \<not> list_ex o_correct options"
    using that
    by (auto simp: grade_answer_def grade_question_def find_o_correct[symmetric]
        split: option.splits)
  have tx: "grade_answer test a = Inl TypeError"
    if "find (\<lambda>q. q_id q = a_questionId a) (t_questions test) = Some q"
      "q_type q = ''text''" "a_text a = None \<or> q_correctAnswer q = None"
    using that
    by (auto simp: grade_answer_def grade_question_def split: option.splits)
  have total: "if list_all (answer_gradable test) answers
    then \<exists>r. Grade uuid now userId testId test answers = Inr r
    else Grade uuid now userId testId test answers = Inl TypeError"
  proof (cases "list_all (answer_gradable test) answers")
    case True
    then have "\<forall>a\<in>set answers. \<exists>g. grade_answer test a = Inr g"
      by (simp add: list_all_iff grade_answer_gradable)
    from gradedAnswers_total[OF this, of 0] obtain gs c
      where "gradedAnswers test answers 0 = Inr (gs, c)" by blast
    then have "\<exists>r. Grade uuid now userId testId test answers = Inr r"
      by (simp add: Grade_def)
    with True show ?thesis by simp
  next
    case False
    then obtain b where b: "b \<in> set answers" "\<not> answer_gradable test b"
      by (auto simp: list_all_iff)
    have "Grade uuid now userId testId test answers = Inl TypeError"
    proof (cases "gradedAnswers test answers 0")
      case (Inl e)
      from gradedAnswers_Inl[OF Inl] grade_answer_error have "e = TypeError" by blast
      with Inl show ?thesis by (simp add: Grade_def)
    next
      case (Inr p)
      obtain gs c where p: "p = (gs, c)" by (cases p)
      from gradedAnswers_Inr[OF Inr[unfolded p]]
      have m: "map (grade_answer test) answers = map Inr gs" by simp
      from b(1) obtain i where i: "i < length answers" "answers ! i = b"
        by (auto simp: in_set_conv_nth)
      from m have "length gs = length answers" by (metis length_map)
      with m i have "grade_answer test b = Inr (gs ! i)"
        by (metis nth_map)
      with b(2) grade_answer_gradable[of test b] show ?thesis by blast
    qed
    with False show ?thesis by simp
  qed
  have abort: "Grade uuid now userId testId test answers = Inl TypeError"
    if "a \<in> set answers" "grade_answer test a = Inl TypeError"
  proof -
    from that(2) grade_answer_gradable[of test a] have "\<not> answer_gradable test a" by auto
    with that(1) have "\<not> list_all (answer_gradable test) answers" by (auto simp: list_all_iff)
    with total show ?thesis by simp
  qed
  from mc tx abort total show ?thesis by blast
qed

theorem Grade_total_iff_witness:
  "grade_answer
     \<lparr>t_id = ''T1'', t_questions =
        [\<lparr>q_id = ''q1'', q_type = ''multiple-choice'',
          q_options = Some [\<lparr>o_id = ''A'', o_text = ''a'', o_correct = False\<rparr>],
          q_correctAnswer = None\<rparr>,
         \<lparr>q_id = ''q2'', q_type = ''text'', q_options = None,
          q_correctAnswer = Some ''Paris''\<rparr>]\<rparr>
     \<lparr>a_questionId = ''q1'', a_optionId = Some ''A'', a_selectedOptions = None,
      a_text = None\<rparr>
   = Inl TypeError \<and>
   grade_answer
     \<lparr>t_id = ''T1'', t_questions =
        [\<lparr>q_id = ''q1'', q_type = ''multiple-choice'',
          q_options = Some [\<lparr>o_id = ''A'', o_text = ''a'', o_correct = False\<rparr>],
          q_correctAnswer = None\<rparr>,
         \<lparr>q_id = ''q2'', q_type = ''text'', q_options = None,
          q_correctAnswer = Some ''Paris''\<rparr>]\<rparr>
     \<lparr>a_questionId = ''q2'', a_optionId = None, a_selectedOptions = None,
      a_text = None\<rparr>
   = Inl TypeError \<and>
   Grade ''R1'' 5000 ''U1'' ''T1''
     \<lparr>t_id = ''T1'', t_questions =
        [\<lparr>q_id = ''q1'', q_type = ''multiple-choice'',
          q_options = Some [\<lparr>o_id = ''A'', o_text = ''a'', o_correct = False\<rparr>],
          q_correctAnswer = None\<rparr>,
         \<lparr>q_id = ''q2'', q_type = ''text'', q_options = None,
          q_correctAnswer = Some ''Paris''\<rparr>]\<rparr>
     [\<lparr>a_questionId = ''q2'', a_optionId = None, a_selectedOptions = None,
       a_text = Some ''paris''\<rparr>,
      \<lparr>a_questionId = ''q1'', a_optionId = Some ''A'', a_selectedOptions = None,
       a_text = None\<rparr>]
   = Inl TypeError \<and>
   (\<exists>r. Grade ''R1'' 5000 ''U1'' ''T1''
     \<lparr>t_id = ''T1'', t_questions =
        [\<lparr>q_id = ''q1'', q_type = ''multiple-choice'',
          q_options = Some [\<lparr>o_id = ''A'', o_text = ''a'', o_correct = False\<rparr>],
          q_correctAnswer = None\<rparr>,
         \<lparr>q_id = ''q2'', q_type = ''text'', q_options = None,
          q_correctAnswer = Some ''Paris''\<rparr>]\<rparr>
     [\<lparr>a_questionId = ''q2'', a_optionId = None, a_selectedOptions = None,
       a_text = Some ''paris''\<rparr>]
   = Inr r)"
proof -
  let ?q1 = "\<lparr>q_id = ''q1'', q_type = ''multiple-choice'',
          q_options = Some [\<lparr>o_id = ''A'', o_text = ''a'', o_correct = False\<rparr>],
          q_correctAnswer = None\<rparr>"
  let ?q2 = "\<lparr>q_id = ''q2'', q_type = ''text'', q_options = None,
          q_correctAnswer = Some ''Paris''\<rparr>"
  let ?t = "\<lparr>t_id = ''T1'', t_questions = [?q1, ?q2]\<rparr>"
  let ?a1 = "\<lparr>a_questionId = ''q1'', a_optionId = Some ''A'', a_selectedOptions = None,
      a_text = None\<rparr>"
  let ?a2 = "\<lparr>a_questionId = ''q2'', a_optionId = None, a_selectedOptions = None,
      a_text = None\<rparr>"
  let ?a3 = "\<lparr>a_questionId = ''q2'', a_optionId = None, a_selectedOptions = None,
       a_text = Some ''paris''\<rparr>"
  have f1: "find (\<lambda>q. q_id q = a_questionId ?a1) (t_questions ?t) = Some ?q1" by simp
  have f2: "find (\<lambda>q. q_id q = a_questionId ?a2) (t_questions ?t) = Some ?q2" by simp
  have 1: "grade_answer ?t ?a1 = Inl TypeError"
    using Grade_total_iff[of ?a1 ?t ?q1] f1 by simp
  have 2: "grade_answer ?t ?a2 = Inl TypeError"
    using Grade_total_iff[of ?a2 ?t ?q2] f2 by simp
  have 3: "Grade ''R1'' 5000 ''U1'' ''T1'' ?t [?a3, ?a1] = Inl TypeError"
    using Grade_total_iff[of ?a1 ?t ?q1 "[?a3, ?a1]" "''R1''" 5000 "''U1''" "''T1''"] 1
    by simp
  have g: "list_all (answer_gradable ?t) [?a3]"
    by (simp add: answer_gradable_def gradable_def stated_precondition_def)
  have 4: "\<exists>r. Grade ''R1'' 5000 ''U1'' ''T1'' ?t [?a3] = Inr r"
    using Grade_total_iff[of ?a1 ?t ?q1 "[?a3]" "''R1''" 5000 "''U1''" "''T1''"] g
    by presburger
  from 1 2 3 4 show ?thesis by blast
qed


text \<open>
  C10 as stated fails: a multiple-answer question without options meets the two stated
  preconditions, and an answer to it that carries an array of selected options makes
  \<open>question.options.filter\<close> throw.
\<close>

theorem Grade_multiple_answer_counterexample:
  "stated_precondition
     \<lparr>q_id = ''q1'', q_type = ''multiple-answer'', q_options = None,
      q_correctAnswer = None\<rparr>
     \<lparr>a_questionId = ''q1'', a_optionId = None, a_selectedOptions = Some [],
      a_text = None\<rparr> \<and>
   find (\<lambda>q. q_id q = ''q1'')
     [\<lparr>q_id = ''q1'', q_type = ''multiple-answer'', q_options = None,
       q_correctAnswer = None\<rparr>]
   = Some \<lparr>q_id = ''q1'', q_type = ''multiple-answer'', q_options = None,
           q_correctAnswer = None\<rparr> \<and>
   Grade ''R1'' 5000 ''U1'' ''T1''
     \<lparr>t_id = ''T1'', t_questions =
        [\<lparr>q_id = ''q1'', q_type = ''multiple-answer'', q_options = None,
          q_correctAnswer = None\<rparr>]\<rparr>
     [\<lparr>a_questionId = ''q1'', a_optionId = None, a_selectedOptions = Some [],
       a_text = None\<rparr>]
   = Inl TypeError"
  by (simp add: stated_precondition_def Grade_def grade_answer_def grade_question_def)

section \<open>Generating the code\<close>

lemma ulp_binade_19: "binade x = 19 \<Longrightarrow> ulp x = 1 / 2 ^ 33"
proof -
  assume "binade x = 19"
  then have "ulp x = 2 powr (- 33)" by (simp add: ulp_def)
  also have "\<dots> = 1 / 2 powr 33" by (rule powr_minus_divide)
  finally show ?thesis by simp
qed

lemma product_bound:
  assumes "0 \<le> x" and "x \<le> 900000 - 900000 / 2 ^ 53"
  shows "round_double x \<le> 900000 - 1 / 2 ^ 33"
proof (cases "x = 0")
  case True
  then show ?thesis by (simp add: round_double_def)
next
  case False
  with assms(1) have pos: "0 < x" by simp
  have "x < 2 powr of_int 20" using assms(2) by simp
  from binade_less[OF pos this] have e: "binade x \<le> 19" by simp
  show ?thesis
  proof (cases "binade x = 19")
    case True
    have u: "ulp x = 1 / 2 ^ 33" using ulp_binade_19[OF True] .
    have "x / ulp x = x * 2 ^ 33" by (simp add: u)
    also have "\<dots> \<le> (900000 - 900000 / 2 ^ 53) * 2 ^ 33"
      using assms(2) by (intro mult_right_mono) simp_all
    also have "\<dots> < of_int (900000 * 2 ^ 33) - 1 / 2" by simp
    finally have "x / ulp x < of_int (900000 * 2 ^ 33) - 1 / 2" .
    from rte_below_half[OF this]
    have "(of_int (round_ties_even (x / ulp x)) :: real) \<le> of_int (900000 * 2 ^ 33 - 1)"
      by (simp only: of_int_le_iff)
    then have "of_int (round_ties_even (x / ulp x)) * ulp x \<le>
        of_int (900000 * 2 ^ 33 - 1) * ulp x"
      using ulp_pos[of x] by (intro mult_right_mono) simp_all
    also have "of_int (900000 * 2 ^ 33 - 1) * ulp x = 900000 - 1 / 2 ^ 33"
      by (simp add: u)
    finally show ?thesis using pos by (simp add: round_double_def)
  next
    case False
    with e have "of_int (binade x) + 1 \<le> (19 :: real)" by linarith
    then have "(2::real) powr (of_int (binade x) + 1) \<le> 2 powr 19"
      by (simp only: powr_le_cancel_iff) 
    with round_double_within_binade[OF pos] have "round_double x \<le> 2 powr 19" by linarith
    then show ?thesis by simp
  qed
qed

lemma draw_bound:
  assumes "random_draw r"
  shows "r \<le> 1 - 1 / 2 ^ 53"
proof (cases "r < 1 / 2")
  case True
  then show ?thesis by simp
next
  case False
  from assms have r: "r < 1" "round_double r = r"
    by (simp_all add: random_draw_def is_double_def)
  from False have pos: "0 < r" by simp
  have "binade r = - 1"
  proof (rule binade_eq[OF pos])
    show "2 powr of_int (- 1) \<le> r" using False by (simp add: powr_minus_divide)
    show "r < 2 powr (of_int (- 1) + 1)" using r(1) by simp
  qed
  then have "ulp r = 2 powr (- 53)" by (simp add: ulp_def)
  also have "\<dots> = 1 / 2 powr 53" by (rule powr_minus_divide)
  finally have u: "ulp r = 1 / 2 ^ 53" by simp
  define m where "m = round_ties_even (r / ulp r)"
  from r(2) pos have "of_int (round_ties_even (r / ulp r)) * ulp r = r"
    by (simp add: round_double_def)
  then have "of_int m * ulp r = r" by (simp only: m_def)
  then have rm: "r = of_int m / 2 ^ 53" by (simp add: u)
  with r(1) have "(of_int m :: real) < of_int (2 ^ 53)" by simp
  then have "m < 2 ^ 53" by (simp only: of_int_less_iff)
  then have "m \<le> 2 ^ 53 - 1" by simp
  then have "(of_int m :: real) \<le> of_int (2 ^ 53 - 1)" by (simp only: of_int_le_iff)
  then have "of_int m / 2 ^ 53 \<le> (of_int (2 ^ 53 - 1) :: real) / 2 ^ 53"
    by (intro divide_right_mono) simp_all
  with rm show ?thesis by simp
qed

lemma code_range:
  assumes "random_draw r"
  shows "100000 \<le> \<lfloor>round_double (100000 + round_double (r * 900000))\<rfloor>"
    and "\<lfloor>round_double (100000 + round_double (r * 900000))\<rfloor> \<le> 999999"
proof -
  from assms have r0: "0 \<le> r" by (simp add: random_draw_def)
  from draw_bound[OF assms] have "r * 900000 \<le> (1 - 1 / 2 ^ 53) * 900000"
    by (intro mult_right_mono) simp_all
  then have p: "r * 900000 \<le> 900000 - 900000 / 2 ^ 53" by simp
  have p0: "0 \<le> r * 900000" using r0 by simp
  define x where "x = round_double (r * 900000)"
  have x0: "0 \<le> x" unfolding x_def by (rule round_double_nonneg[OF p0])
  have x1: "x \<le> 900000 - 1 / 2 ^ 33" unfolding x_def by (rule product_bound[OF p0 p])
  define s where "s = 100000 + x"
  have s0: "0 < s" and s1: "of_int 100000 \<le> s" using x0 by (simp_all add: s_def)
  have s2: "s \<le> of_int (1000000 * 2 ^ 33 - 1) / 2 ^ 33" using x1 by (simp add: s_def)
  have s3: "s < 2 ^ 20" using x1 by (simp add: s_def)
  have s4: "s < 2 ^ 53" using x1 by (simp add: s_def)
  from round_double_lower_int[OF s0 s1 s4] have lo: "100000 \<le> round_double s" by simp
  from round_double_upper_grid[OF s0 s2 s3] have hi: "round_double s < 1000000" by simp
  from lo show "100000 \<le> \<lfloor>round_double (100000 + round_double (r * 900000))\<rfloor>"
    by (simp add: s_def x_def le_floor_iff)
  from hi have "\<lfloor>round_double s\<rfloor> < 1000000" by (simp add: floor_less_iff)
  then show "\<lfloor>round_double (100000 + round_double (r * 900000))\<rfloor> \<le> 999999"
    by (simp add: s_def x_def)
qed

lemma digits_isDigit: "list_all isDigit (digits n)"
proof (induction n rule: digits.induct)
  case (1 n)
  have d: "isDigit (digit_char k)" if "k < 10" for k
    using that by (simp add: isDigit_def digit_char_def)
  show ?case
  proof (cases "n < 10")
    case True
    then show ?thesis by (subst digits.simps) (simp add: d)
  next
    case False
    with 1 have "list_all isDigit (digits (n div 10))" by simp
    moreover have "isDigit (digit_char (n mod 10))" by (rule d) simp
    ultimately show ?thesis using False by (subst digits.simps) simp
  qed
qed

lemma digits_length: "10 ^ k \<le> n \<Longrightarrow> n < 10 ^ Suc k \<Longrightarrow> length (digits n) = Suc k"
proof (induction k arbitrary: n)
  case 0
  then show ?case by (subst digits.simps) simp
next
  case (Suc k)
  from Suc.prems have big: "\<not> n < 10"
    by (metis One_nat_def le_trans not_less one_le_numeral power_Suc power_increasing power_one_right
        Suc_leI zero_less_Suc le_add1 plus_1_eq_Suc)
  from Suc.prems have "10 ^ k \<le> n div 10" "n div 10 < 10 ^ Suc k"
    by (simp_all add: less_mult_imp_div_less div_le_mono2 le_div_geq)
  from Suc.IH[OF this] big show ?case by (subst digits.simps) simp
qed

lemma digits_lt: "n < 10 \<Longrightarrow> digits n = [digit_char n]"
  by (subst digits.simps) simp

lemma digits_ge: "10 \<le> n \<Longrightarrow> digits n = digits (n div 10) @ [digit_char (n mod 10)]"
  by (subst digits.simps) simp

lemma no_digit_in_message: "\<not> list_ex isDigit send_code_message"
  by code_simp

lemma random_draw_half: "random_draw (1 / 2)"
proof -
  have b: "binade (1 / 2) = - 1"
    by (rule binade_eq) (simp_all add: powr_minus_divide)
  then have "ulp (1 / 2) = 2 powr (- 53)" by (simp add: ulp_def)
  also have "\<dots> = 1 / 2 powr 53" by (rule powr_minus_divide)
  finally have u: "ulp (1 / 2) = 1 / 2 ^ 53" by simp
  have "(1 / 2) / ulp (1 / 2) = of_int (2 ^ 52)" by (simp add: u)
  then have "round_ties_even ((1 / 2) / ulp (1 / 2)) = 2 ^ 52"
    by (simp only: round_ties_even_def Let_def floor_of_int) simp
  then have "round_double (1 / 2) = 1 / 2" by (simp add: round_double_def u)
  then show ?thesis by (simp add: random_draw_def is_double_def)
qed

lemma generate_code_half: "generate_code (1 / 2) = ''550000''"
proof -
  have "round_double (of_int 450000) = of_int 450000"
    by (rule round_double_small_int) simp_all
  then have a: "round_double 450000 = 450000" by simp
  have "round_double (of_int 550000) = of_int 550000"
    by (rule round_double_small_int) simp_all
  then have b: "round_double 550000 = 550000" by simp
  have d: "digit_char 5 = CHR ''5''" "digit_char 0 = CHR ''0''" by code_simp+
  have c: "digits 550000 = ''550000''"
    by (simp add: digits_ge digits_lt d)
  show ?thesis by (simp add: generate_code_def a b Number_toString_def c)
qed


text \<open>
  C8. For every double \<open>r\<close> in \<open>[0, 1)\<close> that \<open>Math.random()\<close> returns and every request
  with its three fields present, the generated code is the decimal numeral of an
  integer between 100000 and 999999, hence six digits; the handler stores it in the
  new request and answers with the fixed message, which holds no digit, and the
  freshly allocated user id, which is also the user id of the new request. The
  response has no other field, so it does not carry the code.
\<close>

theorem post_send_code_response:
  assumes "random_draw r"
    and "sc_telegram body \<noteq> []" and "sc_name body \<noteq> []" and "sc_phone body \<noteq> []"
  shows "\<exists>n vs'.
           100000 \<le> n \<and> n \<le> 999999 \<and> generate_code r = digits n \<and>
           length (generate_code r) = 6 \<and> list_all isDigit (generate_code r) \<and>
           post_send_code r userId vid now body vs =
             Inr (\<lparr>scr_message = send_code_message, scr_userId = userId\<rparr>, vs') \<and>
           v_code (last vs') = generate_code r \<and> v_userId (last vs') = userId \<and>
           \<not> list_ex isDigit send_code_message"
proof -
  define i where "i = \<lfloor>round_double (100000 + round_double (r * 900000))\<rfloor>"
  define n where "n = nat i"
  from code_range[OF assms(1)] have i: "100000 \<le> i" "i \<le> 999999" by (simp_all add: i_def)
  then have n: "100000 \<le> n" "n \<le> 999999" by (simp_all add: n_def)
  have code: "generate_code r = digits n"
    using i by (simp add: generate_code_def Number_toString_def i_def[symmetric] n_def)
  have "10 ^ 5 \<le> n" "n < 10 ^ Suc 5" using n by simp_all
  from digits_length[OF this] have len: "length (generate_code r) = 6" by (simp add: code)
  have dig: "list_all isDigit (generate_code r)" by (simp add: code digits_isDigit)
  let ?vs' = "map (expire_existing (cleanTelegram (sc_telegram body))) vs @
      [\<lparr>v_id = vid, v_userId = userId, v_telegram = cleanTelegram (sc_telegram body),
        v_name = sc_name body, v_phone = sc_phone body, v_code = generate_code r,
        v_status = ''pending'', v_createdAt = now, v_expiresAt = now + 30 * 60 * 1000\<rparr>]"
  have run: "post_send_code r userId vid now body vs =
      Inr (\<lparr>scr_message = send_code_message, scr_userId = userId\<rparr>, ?vs')"
    using assms(2-4) by (simp add: post_send_code_def send_code_def Let_def)
  have last: "v_code (last ?vs') = generate_code r" "v_userId (last ?vs') = userId"
    by simp_all
  from n code len dig run last no_digit_in_message show ?thesis by blast
qed

theorem post_send_code_response_witness:
  "random_draw (1 / 2) \<and>
   sc_telegram \<lparr>sc_telegram = ''@alice'', sc_name = ''Alice'', sc_phone = ''+998''\<rparr> \<noteq> [] \<and>
   generate_code (1 / 2) = ''550000'' \<and>
   (\<exists>vs'. post_send_code (1 / 2) ''U1'' ''V1'' 1000
            \<lparr>sc_telegram = ''@alice'', sc_name = ''Alice'', sc_phone = ''+998''\<rparr> []
          = Inr (\<lparr>scr_message = send_code_message, scr_userId = ''U1''\<rparr>, vs') \<and>
          v_code (last vs') = ''550000'' \<and> v_userId (last vs') = ''U1'')"
proof -
  let ?body = "\<lparr>sc_telegram = ''@alice'', sc_name = ''Alice'', sc_phone = ''+998''\<rparr>"
  have h: "sc_telegram ?body \<noteq> []" "sc_name ?body \<noteq> []" "sc_phone ?body \<noteq> []"
    by simp_all
  from post_send_code_response[OF random_draw_half h, of "''U1''" "''V1''" 1000 "[]"]
  obtain vs' where "post_send_code (1 / 2) ''U1'' ''V1'' 1000 ?body []
          = Inr (\<lparr>scr_message = send_code_message, scr_userId = ''U1''\<rparr>, vs')"
    "v_code (last vs') = generate_code (1 / 2)" "v_userId (last vs') = ''U1''"
    by blast
  with random_draw_half h(1) generate_code_half show ?thesis by (simp only:) blast
qed

end
